theory Spec2Isabelle
  imports Complex_Main "HOL-Library.AList"
begin

section \<open>Data model of \<open>session_manager.py\<close>\<close>

text \<open>
  A \<open>datetime\<close> is an integer count of microseconds (the resolution of Python's
  \<open>datetime\<close>); a \<open>timedelta\<close> is a difference of two such counts. Every registry
  operation runs inside one critical section (\<open>with self._lock\<close>); the calls of
  \<open>datetime.now()\<close> inside one critical section are taken to read one instant, the
  parameter \<open>now\<close> of the operation. Operations that follow one another each have their
  own \<open>now\<close>.

  A Python \<open>dict\<close> is an association list: keys are distinct, insertion order is kept,
  \<open>d[k] = v\<close> is \<open>AList.update\<close>, \<open>del d[k]\<close> and \<open>d.pop(k, None)\<close> are
  \<open>AList.delete\<close>, \<open>d.get(k)\<close> is \<open>map_of\<close>.

  A session object is shared between the registry and its callers. It is stored under
  exactly one key of \<open>sessions\<close>, so a mutation of the object is an update of that entry.
\<close>

type_synonym datetime = int

definition timedelta_minutes :: "int \<Rightarrow> int" where
  "timedelta_minutes m = m * 60000000"

datatype pyval = PyNone | PyBool bool | PyInt int | PyStr string

type_synonym pydict = "(string \<times> pyval) list"

datatype error = RuntimeError string | ProcessorError string

record ProcessedResponse =
  response_text :: string
  sql_query :: "string option"
  data :: "pydict list option"
  confidence :: real
  session_id :: string
  requires_followup :: bool

record QueryContext =
  user_id :: string
  session_id :: string
  user_query :: string
  conversation_history :: "(string \<times> string) list list"
  user_profile :: "pydict option"

record ConversationTurn =
  timestamp :: datetime
  user_message :: string
  bot_response :: string
  sql_query :: "string option"
  confidence :: real
  metadata :: pydict

record UserSession =
  session_id :: string
  user_id :: string
  created_at :: datetime
  last_activity :: datetime
  conversation_history :: "ConversationTurn list"
  user_context :: pydict
  is_active :: bool

record SessionManager =
  sessions :: "(string \<times> UserSession) list"
  user_to_session :: "(string \<times> string) list"
  session_timeout_minutes :: int
  cleanup_interval_minutes :: int

record ThreadSafeContextManager =
  session_manager :: SessionManager
  user_locks :: "(string \<times> bool) list"

section \<open>\<open>UserSession\<close>\<close>

definition add_turn ::
  "UserSession \<Rightarrow> string \<Rightarrow> string \<Rightarrow> string option \<Rightarrow> real \<Rightarrow> pydict option \<Rightarrow> datetime
    \<Rightarrow> UserSession" where
  "add_turn s um br sq conf md now =
     (let turn = \<lparr>timestamp = now, user_message = um, bot_response = br, sql_query = sq,
                  confidence = conf, metadata = (case md of None \<Rightarrow> [] | Some d \<Rightarrow> d)\<rparr>
      in s\<lparr>conversation_history := conversation_history s @ [turn], last_activity := now\<rparr>)"

text \<open>The slice \<open>xs[-n:]\<close>: the last \<open>n\<close> elements for \<open>n > 0\<close>, and \<open>xs[k:]\<close> with
  \<open>k = -n\<close> for \<open>n \<le> 0\<close> (so the whole list for \<open>n = 0\<close>).\<close>

definition slice_last :: "int \<Rightarrow> 'a list \<Rightarrow> 'a list" where
  "slice_last n xs = (if 0 < n then drop (length xs - nat n) xs else drop (nat (- n)) xs)"

definition get_recent_context :: "UserSession \<Rightarrow> int \<Rightarrow> (string \<times> string) list list" where
  "get_recent_context s max_turns =
     (let recent_turns = (if conversation_history s \<noteq> []
                          then slice_last max_turns (conversation_history s) else [])
      in concat (map (\<lambda>turn. [[(''role'', ''user''), (''content'', user_message turn)],
                                [(''role'', ''assistant''), (''content'', bot_response turn)]])
                     recent_turns))"

definition is_expired :: "UserSession \<Rightarrow> int \<Rightarrow> datetime \<Rightarrow> bool" where
  "is_expired s timeout_minutes now \<longleftrightarrow> now - last_activity s > timedelta_minutes timeout_minutes"

section \<open>\<open>SessionManager\<close>\<close>

definition SessionManager_init :: "int \<Rightarrow> int \<Rightarrow> SessionManager" where
  "SessionManager_init timeout_minutes interval_minutes =
     \<lparr>sessions = [], user_to_session = [],
      session_timeout_minutes = timeout_minutes, cleanup_interval_minutes = interval_minutes\<rparr>"

text \<open>\<open>new_id\<close> is the string \<open>str(uuid.uuid4())\<close> drawn by the call.\<close>

definition create_session ::
  "SessionManager \<Rightarrow> string \<Rightarrow> pydict option \<Rightarrow> string \<Rightarrow> datetime \<Rightarrow> string \<times> SessionManager" where
  "create_session mgr uid ctx new_id now =
     (let closed =
            (case map_of (user_to_session mgr) uid of
               None \<Rightarrow> sessions mgr
             | Some old_session_id \<Rightarrow>
                 (case map_of (sessions mgr) old_session_id of
                    None \<Rightarrow> sessions mgr
                  | Some old \<Rightarrow> AList.update old_session_id (old\<lparr>is_active := False\<rparr>) (sessions mgr)));
          session = \<lparr>session_id = new_id, user_id = uid, created_at = now, last_activity = now,
                     conversation_history = [],
                     user_context = (case ctx of None \<Rightarrow> [] | Some c \<Rightarrow> c),
                     is_active = True\<rparr>
      in (new_id, mgr\<lparr>sessions := AList.update new_id session closed,
                      user_to_session := AList.update uid new_id (user_to_session mgr)\<rparr>))"

definition get_session ::
  "SessionManager \<Rightarrow> string \<Rightarrow> datetime \<Rightarrow> UserSession option \<times> SessionManager" where
  "get_session mgr sid now =
     (case map_of (sessions mgr) sid of
        None \<Rightarrow> (None, mgr)
      | Some session \<Rightarrow>
          if \<not> is_expired session (session_timeout_minutes mgr) now
          then (let session' = session\<lparr>last_activity := now\<rparr>
                in (Some session', mgr\<lparr>sessions := AList.update sid session' (sessions mgr)\<rparr>))
          else (None, mgr))"

text \<open>\<open>if session_id:\<close> is false for the empty string as well as for a missing entry.\<close>

definition get_user_session ::
  "SessionManager \<Rightarrow> string \<Rightarrow> datetime \<Rightarrow> UserSession option \<times> SessionManager" where
  "get_user_session mgr uid now =
     (case map_of (user_to_session mgr) uid of
        None \<Rightarrow> (None, mgr)
      | Some sid \<Rightarrow> if sid \<noteq> [] then get_session mgr sid now else (None, mgr))"

definition add_conversation_turn ::
  "SessionManager \<Rightarrow> string \<Rightarrow> string \<Rightarrow> string \<Rightarrow> string option \<Rightarrow> real \<Rightarrow> pydict option
    \<Rightarrow> datetime \<Rightarrow> bool \<times> SessionManager" where
  "add_conversation_turn mgr sid um br sq conf md now =
     (case get_session mgr sid now of
        (Some session, mgr') \<Rightarrow>
          (True, mgr'\<lparr>sessions := AList.update sid (add_turn session um br sq conf md now)
                                                  (sessions mgr')\<rparr>)
      | (None, mgr') \<Rightarrow> (False, mgr'))"

text \<open>\<open>dict.update\<close>: every pair of the argument is stored, in order.\<close>

definition dict_update :: "('k \<times> 'v) list \<Rightarrow> ('k \<times> 'v) list \<Rightarrow> ('k \<times> 'v) list" where
  "dict_update d ups = fold (\<lambda>(k, v). AList.update k v) ups d"

definition update_user_context ::
  "SessionManager \<Rightarrow> string \<Rightarrow> pydict \<Rightarrow> datetime \<Rightarrow> bool \<times> SessionManager" where
  "update_user_context mgr sid context_updates now =
     (case get_session mgr sid now of
        (Some session, mgr') \<Rightarrow>
          (True, mgr'\<lparr>sessions :=
                     AList.update sid
                       (session\<lparr>user_context := dict_update (user_context session) context_updates,
                                last_activity := now\<rparr>)
                       (sessions mgr')\<rparr>)
      | (None, mgr') \<Rightarrow> (False, mgr'))"

definition get_conversation_history ::
  "SessionManager \<Rightarrow> string \<Rightarrow> int \<Rightarrow> datetime \<Rightarrow> ConversationTurn list \<times> SessionManager" where
  "get_conversation_history mgr sid max_turns now =
     (case get_session mgr sid now of
        (Some session, mgr') \<Rightarrow>
          ((if conversation_history session \<noteq> []
            then slice_last max_turns (conversation_history session) else []), mgr')
      | (None, mgr') \<Rightarrow> ([], mgr'))"

definition close_session :: "SessionManager \<Rightarrow> string \<Rightarrow> bool \<times> SessionManager" where
  "close_session mgr sid =
     (case map_of (sessions mgr) sid of
        Some session \<Rightarrow>
          (True,
           mgr\<lparr>sessions := AList.update sid (session\<lparr>is_active := False\<rparr>) (sessions mgr),
               user_to_session :=
                 (if map_of (user_to_session mgr) (user_id session) = Some sid
                  then AList.delete (user_id session) (user_to_session mgr)
                  else user_to_session mgr)\<rparr>)
      | None \<Rightarrow> (False, mgr))"

record session_stats =
  active_sessions :: nat
  total_sessions :: nat
  total_conversation_turns :: nat
  unique_users :: nat

definition get_session_stats :: "SessionManager \<Rightarrow> session_stats" where
  "get_session_stats mgr =
     \<lparr>active_sessions = length (filter is_active (map snd (sessions mgr))),
      total_sessions = length (sessions mgr),
      total_conversation_turns =
        sum_list (map (\<lambda>s. length (conversation_history s)) (map snd (sessions mgr))),
      unique_users = length (remdups (map user_id (map snd (sessions mgr))))\<rparr>"

text \<open>The sweep: the first loop collects the ids to retire, the second pops each of them
  and drops the identity-index entry of its user when that entry still names it.\<close>

definition expired_sessions :: "SessionManager \<Rightarrow> datetime \<Rightarrow> string list" where
  "expired_sessions mgr now =
     map fst (filter (\<lambda>(sid, session).
                        is_expired session (session_timeout_minutes mgr) now \<or> \<not> is_active session)
                     (sessions mgr))"

definition pop_session :: "string \<Rightarrow> SessionManager \<Rightarrow> SessionManager" where
  "pop_session sid mgr =
     (case map_of (sessions mgr) sid of
        None \<Rightarrow> mgr
      | Some session \<Rightarrow>
          mgr\<lparr>sessions := AList.delete sid (sessions mgr),
              user_to_session :=
                (if map_of (user_to_session mgr) (user_id session) = Some sid
                 then AList.delete (user_id session) (user_to_session mgr)
                 else user_to_session mgr)\<rparr>)"

definition cleanup_expired_sessions :: "SessionManager \<Rightarrow> datetime \<Rightarrow> SessionManager" where
  "cleanup_expired_sessions mgr now = fold pop_session (expired_sessions mgr now) mgr"

section \<open>\<open>ThreadSafeContextManager\<close>\<close>

text \<open>
  An \<open>asyncio.Lock\<close> is its flag \<open>locked\<close>. One call of \<open>process_user_request\<close> is
  modelled from the moment it is issued to the moment it returns or raises: \<open>async with\<close>
  takes the lock when it is free and gives it back on every way out of the block. When the
  lock is held the call waits, and the model yields \<open>None\<close>.

  \<open>processor_func\<close> is an arbitrary callable: it is handed the session object and may
  reach the registry, so it is a function of the registry state that returns its result,
  or the exception it raised, together with the registry state it left behind.
\<close>

datatype 'r outcome = Return 'r | Raise error

type_synonym 'r processor_func =
  "UserSession \<Rightarrow> string \<Rightarrow> pydict option \<Rightarrow> SessionManager
     \<Rightarrow> (error + 'r) \<times> SessionManager"

definition ThreadSafeContextManager_init :: "SessionManager \<Rightarrow> ThreadSafeContextManager" where
  "ThreadSafeContextManager_init mgr = \<lparr>session_manager = mgr, user_locks = []\<rparr>"

definition get_user_lock :: "ThreadSafeContextManager \<Rightarrow> string \<Rightarrow> ThreadSafeContextManager" where
  "get_user_lock cm uid =
     (case map_of (user_locks cm) uid of
        None \<Rightarrow> cm\<lparr>user_locks := AList.update uid False (user_locks cm)\<rparr>
      | Some lck \<Rightarrow> cm)"

definition acquire :: "string \<Rightarrow> (string \<times> bool) list \<Rightarrow> (string \<times> bool) list option" where
  "acquire uid locks =
     (case map_of locks uid of
        Some False \<Rightarrow> Some (AList.update uid True locks)
      | Some True \<Rightarrow> None
      | None \<Rightarrow> None)"

definition release :: "string \<Rightarrow> (string \<times> bool) list \<Rightarrow> (string \<times> bool) list" where
  "release uid locks = AList.update uid False locks"

text \<open>The block under the comment \<open># Get or create session\<close>. The three registry calls
  are three critical sections, each with its own clock reading.\<close>

definition get_or_create_session ::
  "SessionManager \<Rightarrow> string \<Rightarrow> pydict option \<Rightarrow> string \<Rightarrow> datetime \<Rightarrow> datetime \<Rightarrow> datetime
     \<Rightarrow> UserSession option \<times> SessionManager" where
  "get_or_create_session mgr uid ctx new_id now_lookup now_create now_get =
     (case get_user_session mgr uid now_lookup of
        (Some session, mgr1) \<Rightarrow> (Some session, mgr1)
      | (None, mgr1) \<Rightarrow>
          (case create_session mgr1 uid ctx new_id now_create of
             (sid, mgr2) \<Rightarrow> get_session mgr2 sid now_get))"

definition process_user_request ::
  "ThreadSafeContextManager \<Rightarrow> string \<Rightarrow> string \<Rightarrow> 'r processor_func \<Rightarrow> pydict option
     \<Rightarrow> string \<Rightarrow> datetime \<Rightarrow> datetime \<Rightarrow> datetime
     \<Rightarrow> ('r outcome \<times> ThreadSafeContextManager) option" where
  "process_user_request cm uid msg processor_func ctx new_id now_lookup now_create now_get =
     (let cm1 = get_user_lock cm uid in
      case acquire uid (user_locks cm1) of
        None \<Rightarrow> None
      | Some held \<Rightarrow>
          (case get_or_create_session (session_manager cm1) uid ctx new_id
                  now_lookup now_create now_get of
             (None, mgr1) \<Rightarrow>
               Some (Raise (RuntimeError (''Could not create or retrieve session for user '' @ uid)),
                     \<lparr>session_manager = mgr1, user_locks = release uid held\<rparr>)
           | (Some session, mgr1) \<Rightarrow>
               (case processor_func session msg ctx mgr1 of
                  (Inl e, mgr2) \<Rightarrow>
                    Some (Raise e, \<lparr>session_manager = mgr2, user_locks = release uid held\<rparr>)
                | (Inr result, mgr2) \<Rightarrow>
                    Some (Return result,
                          \<lparr>session_manager = mgr2, user_locks = release uid held\<rparr>))))"

section \<open>The callback of \<open>main.py\<close>\<close>

text \<open>
  \<open>query_processor\<close> awaits three collaborators (the knowledge base twice, the pipeline
  once); each is a parameter that returns its value or the exception it raised.
  \<open>query_context.user_profile\<close> is the session's own \<open>user_context\<close> dictionary unless
  that is empty (\<open>or {}\<close> then makes a new one), so storing \<open>contextual_info\<close> in it
  writes to the session.
\<close>

record collaborators =
  get_contextual_information :: "string \<Rightarrow> (string \<times> string) list list \<Rightarrow> error + string"
  process_query :: "QueryContext \<Rightarrow> error + ProcessedResponse"
  add_conversation_context :: "string \<Rightarrow> string \<Rightarrow> string \<Rightarrow> string option \<Rightarrow> error + unit"

definition set_contextual_info :: "string \<Rightarrow> string \<Rightarrow> SessionManager \<Rightarrow> SessionManager" where
  "set_contextual_info sid info mgr =
     (case map_of (sessions mgr) sid of
        None \<Rightarrow> mgr
      | Some live \<Rightarrow>
          mgr\<lparr>sessions :=
                AList.update sid
                  (live\<lparr>user_context := AList.update ''contextual_info'' (PyStr info) (user_context live)\<rparr>)
                  (sessions mgr)\<rparr>)"

definition query_processor ::
  "collaborators \<Rightarrow> string \<Rightarrow> datetime \<Rightarrow> ProcessedResponse processor_func" where
  "query_processor ext uid now_append session msg kwargs mgr =
     (case get_contextual_information ext msg (get_recent_context session 5) of
        Inl e \<Rightarrow> (Inl e, mgr)
      | Inr contextual_info \<Rightarrow>
          (let query_context =
                 \<lparr>QueryContext.user_id = uid, QueryContext.session_id = session_id session,
                  user_query = msg,
                  QueryContext.conversation_history = get_recent_context session 5,
                  user_profile = Some (user_context session)\<rparr>;
               (query_context', mgr1) =
                 (if contextual_info \<noteq> []
                  then (if user_context session \<noteq> []
                        then (query_context\<lparr>user_profile :=
                                 Some (AList.update ''contextual_info'' (PyStr contextual_info)
                                         (user_context session))\<rparr>,
                              set_contextual_info (session_id session) contextual_info mgr)
                        else (query_context\<lparr>user_profile :=
                                 Some [(''contextual_info'', PyStr contextual_info)]\<rparr>, mgr))
                  else (query_context, mgr))
           in case process_query ext query_context' of
                Inl e \<Rightarrow> (Inl e, mgr1)
              | Inr response \<Rightarrow>
                  (let mgr2 = snd (add_conversation_turn mgr1 (session_id session) msg
                                     (response_text response) (ProcessedResponse.sql_query response)
                                     (ProcessedResponse.confidence response)
                                     (Some [(''requires_followup'', PyBool (requires_followup response))])
                                     now_append)
                   in if ProcessedResponse.confidence response > 7 / 10
                      then (case add_conversation_context ext (session_id session) msg
                                   (response_text response) (ProcessedResponse.sql_query response) of
                              Inl e \<Rightarrow> (Inl e, mgr2)
                            | Inr u \<Rightarrow> (Inr response, mgr2))
                      else (Inr response, mgr2))))"

section \<open>Sequences of registry operations\<close>

datatype registry_op =
    CreateSession string "pydict option" string datetime
  | GetSession string datetime
  | GetUserSession string datetime
  | AddConversationTurn string string string "string option" real "pydict option" datetime
  | UpdateUserContext string pydict datetime
  | GetConversationHistory string int datetime
  | CloseSession string
  | GetSessionStats
  | CleanupExpiredSessions datetime

fun apply_op :: "SessionManager \<Rightarrow> registry_op \<Rightarrow> SessionManager" where
  "apply_op mgr (CreateSession uid ctx new_id now) = snd (create_session mgr uid ctx new_id now)"
| "apply_op mgr (GetSession sid now) = snd (get_session mgr sid now)"
| "apply_op mgr (GetUserSession uid now) = snd (get_user_session mgr uid now)"
| "apply_op mgr (AddConversationTurn sid um br sq conf md now) =
     snd (add_conversation_turn mgr sid um br sq conf md now)"
| "apply_op mgr (UpdateUserContext sid ups now) = snd (update_user_context mgr sid ups now)"
| "apply_op mgr (GetConversationHistory sid n now) = snd (get_conversation_history mgr sid n now)"
| "apply_op mgr (CloseSession sid) = snd (close_session mgr sid)"
| "apply_op mgr GetSessionStats = mgr"
| "apply_op mgr (CleanupExpiredSessions now) = cleanup_expired_sessions mgr now"

text \<open>\<open>uuid.uuid4()\<close> draws an identifier that is not in use: a run is admitted when
  every \<open>create_session\<close> of it is given an id that is not a key of the store.\<close>

fun fresh_id :: "SessionManager \<Rightarrow> registry_op \<Rightarrow> bool" where
  "fresh_id mgr (CreateSession uid ctx new_id now) \<longleftrightarrow> new_id \<notin> set (map fst (sessions mgr))"
| "fresh_id mgr other \<longleftrightarrow> True"

fun run :: "SessionManager \<Rightarrow> registry_op list \<Rightarrow> SessionManager" where
  "run mgr [] = mgr"
| "run mgr (x # xs) = run (apply_op mgr x) xs"

fun fresh_ids :: "SessionManager \<Rightarrow> registry_op list \<Rightarrow> bool" where
  "fresh_ids mgr [] \<longleftrightarrow> True"
| "fresh_ids mgr (x # xs) \<longleftrightarrow> fresh_id mgr x \<and> fresh_ids (apply_op mgr x) xs"

text \<open>The registry invariant of the data model: every value of the identity index is a
  key of the store, and the session stored there is active.\<close>

definition index_entry_ok :: "SessionManager \<Rightarrow> string \<times> string \<Rightarrow> bool" where
  "index_entry_ok mgr entry =
     (case map_of (sessions mgr) (snd entry) of None \<Rightarrow> False | Some s \<Rightarrow> is_active s)"

definition registry_invariant :: "SessionManager \<Rightarrow> bool" where
  "registry_invariant mgr \<longleftrightarrow> list_all (index_entry_ok mgr) (user_to_session mgr)"

text \<open>What the proofs carry along a run: both dictionaries have distinct keys, and an
  index entry \<open>uid \<mapsto> sid\<close> names an active session of that same user.\<close>

definition index_linked :: "SessionManager \<Rightarrow> bool" where
  "index_linked m \<longleftrightarrow>
     (\<forall>uid sid. map_of (user_to_session m) uid = Some sid \<longrightarrow>
        (\<exists>s. map_of (sessions m) sid = Some s \<and> is_active s \<and> user_id s = uid))"

definition linked :: "SessionManager \<Rightarrow> bool" where
  "linked m \<longleftrightarrow>
     distinct (map fst (sessions m)) \<and> distinct (map fst (user_to_session m)) \<and> index_linked m"

section \<open>A small registry for concrete runs\<close>

text \<open>A registry with a 60-minute timeout, a session \<open>s1\<close> created for \<open>alice\<close> at
  time 0, and the same registry after that session has been closed.\<close>

definition registry0 :: SessionManager where
  "registry0 = SessionManager_init 60 10"

definition alice_created :: SessionManager where
  "alice_created = snd (create_session registry0 ''alice'' None ''s1'' 0)"

definition alice_closed :: SessionManager where
  "alice_closed = snd (close_session alice_created ''s1'')"

definition alice_closed_session :: UserSession where
  "alice_closed_session =
     \<lparr>session_id = ''s1'', user_id = ''alice'', created_at = 0, last_activity = 0,
      conversation_history = [], user_context = [], is_active = False\<rparr>"

definition demo_ops :: "registry_op list" where
  "demo_ops =
     [CreateSession ''alice'' None ''s1'' 0,
      AddConversationTurn ''s1'' ''hi'' ''hello'' None (9 / 10) None 1,
      CreateSession ''alice'' None ''s2'' 2,
      CreateSession ''bob'' None ''s3'' 3,
      CloseSession ''s3'']"

text \<open>Every session is stored under its own \<open>session_id\<close>.\<close>

definition keys_consistent :: "SessionManager \<Rightarrow> bool" where
  "keys_consistent m \<longleftrightarrow> (\<forall>sid s. map_of (sessions m) sid = Some s \<longrightarrow> session_id s = sid)"

text \<open>Callbacks and a set of collaborators for concrete runs: a callback that
  returns a result and touches nothing, one that appends a turn and then raises, one that
  raises and touches nothing, and collaborators that all succeed.\<close>

definition silent_processor :: "string processor_func" where
  "silent_processor session msg kwargs mgr = (Inr ''ok'', mgr)"

definition append_then_fail :: "string processor_func" where
  "append_then_fail session msg kwargs mgr =
     (Inl (ProcessorError ''boom''),
      snd (add_conversation_turn mgr (session_id session) msg ''partial'' None 0 None 2))"

definition fail_processor :: "string processor_func" where
  "fail_processor session msg kwargs mgr = (Inl (ProcessorError ''boom''), mgr)"

definition demo_collaborators :: collaborators where
  "demo_collaborators =
     \<lparr>get_contextual_information = (\<lambda>q h. Inr ''''),
      process_query = (\<lambda>qc. Inr \<lparr>response_text = ''hello'', sql_query = None, data = None,
                                  confidence = 9 / 10,
                                  session_id = QueryContext.session_id qc,
                                  requires_followup = False\<rparr>),
      add_conversation_context = (\<lambda>sid q a sq. Inr ())\<rparr>"

section \<open>Session lookup\<close>

lemma get_session_unfold:
  "get_session mgr sid now =
     (case map_of (sessions mgr) sid of
        None \<Rightarrow> (None, mgr)
      | Some s \<Rightarrow>
          if now - last_activity s \<le> timedelta_minutes (session_timeout_minutes mgr)
          then (Some (s\<lparr>last_activity := now\<rparr>),
                mgr\<lparr>sessions := AList.update sid (s\<lparr>last_activity := now\<rparr>) (sessions mgr)\<rparr>)
          else (None, mgr))"
  by (simp add: get_session_def is_expired_def Let_def not_less split: option.splits)

lemmas demo_defs =
  registry0_def alice_created_def alice_closed_def SessionManager_init_def
  create_session_def close_session_def timedelta_minutes_def

text \<open>
  C1. \<open>get_session\<close> returns a session exactly when the id is a key of the store and
  \<open>now - last_activity \<le> TTL\<close>; the session it returns is the stored one with
  \<open>last_activity\<close> set to \<open>now\<close>, and that is what the store holds afterwards. It returns
  nothing exactly when the id is absent or the session is expired, and then the registry
  is unchanged. Hence a session accessed at \<open>now\<close> is found by the next access at time
  \<open>t\<close> exactly when \<open>t \<le> now + TTL\<close>.
\<close>

theorem get_session_sliding_expiration:
  "(\<forall>s'. fst (get_session mgr sid now) = Some s' \<longleftrightarrow>
       (\<exists>s. map_of (sessions mgr) sid = Some s
           \<and> now - last_activity s \<le> timedelta_minutes (session_timeout_minutes mgr)
           \<and> s' = s\<lparr>last_activity := now\<rparr>))
   \<and> (\<forall>s'. fst (get_session mgr sid now) = Some s' \<longrightarrow>
         map_of (sessions (snd (get_session mgr sid now))) sid = Some s' \<and> last_activity s' = now)
   \<and> (fst (get_session mgr sid now) = None \<longleftrightarrow>
         map_of (sessions mgr) sid = None
         \<or> (\<exists>s. map_of (sessions mgr) sid = Some s
               \<and> now - last_activity s > timedelta_minutes (session_timeout_minutes mgr)))
   \<and> (fst (get_session mgr sid now) = None \<longrightarrow> snd (get_session mgr sid now) = mgr)
   \<and> (\<forall>s' mgr' t. get_session mgr sid now = (Some s', mgr') \<longrightarrow>
         (fst (get_session mgr' sid t) \<noteq> None \<longleftrightarrow>
            t \<le> now + timedelta_minutes (session_timeout_minutes mgr)))"
proof (cases "map_of (sessions mgr) sid")
  case None
  then show ?thesis by (simp add: get_session_unfold)
next
  case (Some s)
  show ?thesis
  proof (cases "now - last_activity s \<le> timedelta_minutes (session_timeout_minutes mgr)")
    case True
    with Some show ?thesis
      by (auto simp: get_session_unfold AList.update_conv')
  next
    case False
    with Some show ?thesis by (auto simp: get_session_unfold)
  qed
qed

theorem get_session_sliding_expiration_witness:
  "fst (get_session alice_created ''s1'' 3600000000) \<noteq> None
   \<and> fst (get_session (snd (get_session alice_created ''s1'' 3600000000)) ''s1'' 7200000000) \<noteq> None
   \<and> fst (get_session (snd (get_session alice_created ''s1'' 3600000000)) ''s1'' 7200000001) = None"
  using get_session_sliding_expiration [of alice_created "''s1''" 3600000000]
  by (simp add: demo_defs get_session_unfold)

section \<open>The index stays linked to the store\<close>

lemma map_of_eq_None_keys: "map_of al k = None \<longleftrightarrow> k \<notin> set (map fst al)"
  by (simp add: map_of_eq_None_iff)

lemma linked_iff:
  "linked m \<longleftrightarrow> distinct (map fst (sessions m)) \<and> distinct (map fst (user_to_session m))
     \<and> index_linked m"
  by (simp add: linked_def)

lemma index_linkedD:
  "index_linked m \<Longrightarrow> map_of (user_to_session m) uid = Some sid \<Longrightarrow>
     \<exists>s. map_of (sessions m) sid = Some s \<and> is_active s \<and> user_id s = uid"
  by (simp add: index_linked_def)

lemma linked_init: "linked (SessionManager_init t c)"
  by (simp add: linked_iff index_linked_def SessionManager_init_def)

lemma index_linked_update_same:
  assumes "index_linked m" "map_of (sessions m) sid = Some s"
    "is_active s' = is_active s" "user_id s' = user_id s"
  shows "index_linked (m\<lparr>sessions := AList.update sid s' (sessions m)\<rparr>)"
proof (unfold index_linked_def, intro allI impI)
  fix uid k
  assume "map_of (user_to_session (m\<lparr>sessions := AList.update sid s' (sessions m)\<rparr>)) uid = Some k"
  then have "map_of (user_to_session m) uid = Some k" by simp
  with assms(1) obtain s0 where s0: "map_of (sessions m) k = Some s0" "is_active s0" "user_id s0 = uid"
    by (auto dest: index_linkedD)
  show "\<exists>t. map_of (sessions (m\<lparr>sessions := AList.update sid s' (sessions m)\<rparr>)) k = Some t
          \<and> is_active t \<and> user_id t = uid"
  proof (cases "k = sid")
    case True
    with s0 assms show ?thesis by (simp add: AList.update_conv')
  next
    case False
    with s0 show ?thesis by (simp add: AList.update_conv')
  qed
qed

lemma linked_update_same:
  assumes "linked m" "map_of (sessions m) sid = Some s"
    "is_active s' = is_active s" "user_id s' = user_id s"
  shows "linked (m\<lparr>sessions := AList.update sid s' (sessions m)\<rparr>)"
  using assms index_linked_update_same [of m sid s s']
  by (simp add: linked_iff AList.distinct_update)

lemma get_session_Some_stored:
  "get_session m sid now = (Some s, m') \<Longrightarrow>
     \<exists>s0. map_of (sessions m) sid = Some s0 \<and> s = s0\<lparr>last_activity := now\<rparr>
        \<and> m' = m\<lparr>sessions := AList.update sid s (sessions m)\<rparr>"
  by (auto simp: get_session_unfold split: option.splits if_splits)

lemma get_session_None_same: "get_session m sid now = (None, m') \<Longrightarrow> m' = m"
  by (auto simp: get_session_unfold split: option.splits if_splits)

lemma linked_get_session: "linked m \<Longrightarrow> linked (snd (get_session m sid now))"
proof -
  assume l: "linked m"
  obtain r m' where g: "get_session m sid now = (r, m')" by (cases "get_session m sid now")
  show ?thesis
  proof (cases r)
    case None
    with g l show ?thesis by (auto dest: get_session_None_same)
  next
    case (Some s)
    with g obtain s0 where s0: "map_of (sessions m) sid = Some s0" "s = s0\<lparr>last_activity := now\<rparr>"
      "m' = m\<lparr>sessions := AList.update sid s (sessions m)\<rparr>"
      by (auto dest: get_session_Some_stored)
    have "linked (m\<lparr>sessions := AList.update sid s (sessions m)\<rparr>)"
      using l s0 by (intro linked_update_same) auto
    with g s0 show ?thesis by simp
  qed
qed

lemma linked_get_user_session: "linked m \<Longrightarrow> linked (snd (get_user_session m uid now))"
  by (simp add: get_user_session_def linked_get_session split: option.splits)

lemma linked_add_conversation_turn:
  "linked m \<Longrightarrow> linked (snd (add_conversation_turn m sid um br sq conf md now))"
proof -
  assume l: "linked m"
  obtain r m' where g: "get_session m sid now = (r, m')" by (cases "get_session m sid now")
  show ?thesis
  proof (cases r)
    case None
    with g l show ?thesis
      by (auto simp: add_conversation_turn_def dest: get_session_None_same)
  next
    case (Some s)
    with g obtain s0 where s0: "map_of (sessions m) sid = Some s0" "s = s0\<lparr>last_activity := now\<rparr>"
      "m' = m\<lparr>sessions := AList.update sid s (sessions m)\<rparr>"
      by (auto dest: get_session_Some_stored)
    have "linked (m\<lparr>sessions := AList.update sid (add_turn s um br sq conf md now) (sessions m)\<rparr>)"
      using l s0 by (intro linked_update_same) (auto simp: add_turn_def Let_def)
    with g Some s0 show ?thesis
      by (simp add: add_conversation_turn_def)
  qed
qed

lemma linked_update_user_context:
  "linked m \<Longrightarrow> linked (snd (update_user_context m sid ups now))"
proof -
  assume l: "linked m"
  obtain r m' where g: "get_session m sid now = (r, m')" by (cases "get_session m sid now")
  show ?thesis
  proof (cases r)
    case None
    with g l show ?thesis
      by (auto simp: update_user_context_def dest: get_session_None_same)
  next
    case (Some s)
    with g obtain s0 where s0: "map_of (sessions m) sid = Some s0" "s = s0\<lparr>last_activity := now\<rparr>"
      "m' = m\<lparr>sessions := AList.update sid s (sessions m)\<rparr>"
      by (auto dest: get_session_Some_stored)
    have "linked (m\<lparr>sessions := AList.update sid
             (s\<lparr>user_context := dict_update (user_context s) ups, last_activity := now\<rparr>) (sessions m)\<rparr>)"
      using l s0 by (intro linked_update_same) auto
    with g Some s0 show ?thesis
      by (simp add: update_user_context_def)
  qed
qed

lemma snd_get_conversation_history:
  "snd (get_conversation_history m sid n now) = snd (get_session m sid now)"
  by (cases "get_session m sid now" rule: prod.exhaust; cases "fst (get_session m sid now)")
     (auto simp: get_conversation_history_def)

lemma index_linked_close_session:
  assumes "index_linked m"
  shows "index_linked (snd (close_session m sid))"
proof (cases "map_of (sessions m) sid")
  case None
  with assms show ?thesis by (simp add: close_session_def)
next
  case (Some c)
  show ?thesis
  proof (unfold index_linked_def, intro allI impI)
    fix uid k
    assume a: "map_of (user_to_session (snd (close_session m sid))) uid = Some k"
    have idx: "map_of (user_to_session m) uid = Some k"
      using a Some by (auto simp: close_session_def AList.delete_conv' split: if_splits)
    with assms obtain s0 where s0: "map_of (sessions m) k = Some s0" "is_active s0" "user_id s0 = uid"
      by (auto dest: index_linkedD)
    have "k \<noteq> sid"
    proof
      assume "k = sid"
      with s0 Some have "user_id c = uid" by simp
      with a Some idx \<open>k = sid\<close> show False
        by (simp add: close_session_def AList.delete_conv')
    qed
    with s0 Some
    show "\<exists>t. map_of (sessions (snd (close_session m sid))) k = Some t \<and> is_active t \<and> user_id t = uid"
      by (simp add: close_session_def AList.update_conv')
  qed
qed

lemma distinct_close_session:
  "distinct (map fst (sessions m)) \<Longrightarrow> distinct (map fst (user_to_session m)) \<Longrightarrow>
     distinct (map fst (sessions (snd (close_session m sid))))
     \<and> distinct (map fst (user_to_session (snd (close_session m sid))))"
  by (cases "map_of (sessions m) sid")
     (simp_all add: close_session_def AList.distinct_update AList.distinct_delete)

lemma linked_close_session: "linked m \<Longrightarrow> linked (snd (close_session m sid))"
  unfolding linked_iff
  using index_linked_close_session [of m sid] distinct_close_session [of m sid]
  by blast

lemma index_linked_create_session:
  assumes il: "index_linked m" and fresh: "map_of (sessions m) new_id = None"
  shows "index_linked (snd (create_session m uid ctx new_id now))"
proof (unfold index_linked_def, intro allI impI)
  fix u k
  assume a: "map_of (user_to_session (snd (create_session m uid ctx new_id now))) u = Some k"
  let ?m' = "snd (create_session m uid ctx new_id now)"
  show "\<exists>t. map_of (sessions ?m') k = Some t \<and> is_active t \<and> user_id t = u"
  proof (cases "u = uid")
    case True
    with a have "k = new_id" by (simp add: create_session_def Let_def AList.update_conv')
    with True show ?thesis by (simp add: create_session_def Let_def AList.update_conv')
  next
    case False
    with a have idx: "map_of (user_to_session m) u = Some k"
      by (simp add: create_session_def Let_def AList.update_conv')
    with il obtain s0 where s0: "map_of (sessions m) k = Some s0" "is_active s0" "user_id s0 = u"
      by (auto dest: index_linkedD)
    from s0 fresh have ne: "k \<noteq> new_id" by auto
    have "\<And>old. map_of (user_to_session m) uid = Some old \<Longrightarrow> old \<noteq> k"
    proof
      fix old assume o: "map_of (user_to_session m) uid = Some old" "old = k"
      with il s0 have "user_id s0 = uid" by (auto dest: index_linkedD)
      with s0 False show False by simp
    qed
    with s0 ne show ?thesis
      by (auto simp: create_session_def Let_def AList.update_conv' split: option.splits)
  qed
qed

lemma distinct_create_session:
  assumes "distinct (map fst (sessions m))" "distinct (map fst (user_to_session m))"
  shows "distinct (map fst (sessions (snd (create_session m uid ctx new_id now))))
     \<and> distinct (map fst (user_to_session (snd (create_session m uid ctx new_id now))))"
proof -
  have "distinct (map fst (case map_of (user_to_session m) uid of
               None \<Rightarrow> sessions m
             | Some old_session_id \<Rightarrow>
                 (case map_of (sessions m) old_session_id of
                    None \<Rightarrow> sessions m
                  | Some old \<Rightarrow> AList.update old_session_id (old\<lparr>is_active := False\<rparr>) (sessions m))))"
    using assms(1) by (simp add: AList.distinct_update split: option.splits)
  then show ?thesis
    using assms(2) by (simp add: create_session_def Let_def AList.distinct_update)
qed

lemma linked_create_session:
  assumes "linked m" "new_id \<notin> set (map fst (sessions m))"
  shows "linked (snd (create_session m uid ctx new_id now))"
proof -
  from assms(2) have "map_of (sessions m) new_id = None" by (simp add: map_of_eq_None_keys)
  with assms(1) have "index_linked (snd (create_session m uid ctx new_id now))"
    by (simp add: linked_iff index_linked_create_session)
  moreover have "distinct (map fst (sessions (snd (create_session m uid ctx new_id now))))
     \<and> distinct (map fst (user_to_session (snd (create_session m uid ctx new_id now))))"
    using assms(1) by (intro distinct_create_session) (simp_all add: linked_iff)
  ultimately show ?thesis unfolding linked_iff by blast
qed

lemma sessions_pop_session:
  "map_of (sessions (pop_session x m)) = (map_of (sessions m))(x := None)"
  by (cases "map_of (sessions m) x") (simp_all add: pop_session_def AList.delete_conv' fun_upd_idem)

lemma index_pop_session:
  "index_linked m \<Longrightarrow>
   map_of (user_to_session (pop_session x m)) uid =
     (case map_of (user_to_session m) uid of
        None \<Rightarrow> None | Some sid \<Rightarrow> if sid = x then None else Some sid)"
proof -
  assume il: "index_linked m"
  show ?thesis
  proof (cases "map_of (sessions m) x")
    case None
    have "map_of (user_to_session m) uid \<noteq> Some x"
    proof
      assume "map_of (user_to_session m) uid = Some x"
      with il None show False by (auto dest: index_linkedD)
    qed
    with None show ?thesis
      by (cases "map_of (user_to_session m) uid") (simp_all add: pop_session_def)
  next
    case (Some c)
    have *: "map_of (user_to_session m) uid = Some x \<Longrightarrow> user_id c = uid"
      using il Some by (auto dest: index_linkedD)
    show ?thesis
    proof (cases "map_of (user_to_session m) uid")
      case None
      with Some show ?thesis by (simp add: pop_session_def AList.delete_conv')
    next
      case (Some k)
      note k = this
      show ?thesis
      proof (cases "k = x")
        case True
        with k * have "user_id c = uid" by simp
        with k True \<open>map_of (sessions m) x = Some c\<close> show ?thesis
          by (simp add: pop_session_def AList.delete_conv')
      next
        case False
        with k \<open>map_of (sessions m) x = Some c\<close> show ?thesis
          by (auto simp: pop_session_def AList.delete_conv')
      qed
    qed
  qed
qed

lemma index_linked_pop_session: "index_linked m \<Longrightarrow> index_linked (pop_session x m)"
proof -
  assume il: "index_linked m"
  show ?thesis
  proof (unfold index_linked_def, intro allI impI)
    fix uid k
    assume "map_of (user_to_session (pop_session x m)) uid = Some k"
    then have idx: "map_of (user_to_session m) uid = Some k" and ne: "k \<noteq> x"
      by (simp_all add: index_pop_session [OF il] split: option.splits if_splits)
    from il idx obtain s0 where "map_of (sessions m) k = Some s0" "is_active s0" "user_id s0 = uid"
      by (auto dest: index_linkedD)
    with ne show "\<exists>t. map_of (sessions (pop_session x m)) k = Some t \<and> is_active t \<and> user_id t = uid"
      by (simp add: sessions_pop_session)
  qed
qed

lemma distinct_pop_session:
  "distinct (map fst (sessions m)) \<Longrightarrow> distinct (map fst (user_to_session m)) \<Longrightarrow>
     distinct (map fst (sessions (pop_session x m)))
     \<and> distinct (map fst (user_to_session (pop_session x m)))"
  by (cases "map_of (sessions m) x") (simp_all add: pop_session_def AList.distinct_delete)

lemma linked_pop_session: "linked m \<Longrightarrow> linked (pop_session x m)"
  unfolding linked_iff
  using index_linked_pop_session [of m x] distinct_pop_session [of m x]
  by blast

lemma linked_fold_pop: "linked m \<Longrightarrow> linked (fold pop_session xs m)"
  by (induction xs arbitrary: m) (simp_all add: linked_pop_session)

lemma linked_cleanup: "linked m \<Longrightarrow> linked (cleanup_expired_sessions m now)"
  by (simp add: cleanup_expired_sessions_def linked_fold_pop)

lemma linked_apply_op: "linked m \<Longrightarrow> fresh_id m x \<Longrightarrow> linked (apply_op m x)"
  by (cases x)
     (simp_all add: linked_create_session linked_get_session linked_get_user_session
        linked_add_conversation_turn linked_update_user_context snd_get_conversation_history
        linked_close_session linked_cleanup)

lemma linked_run: "linked m \<Longrightarrow> fresh_ids m ops \<Longrightarrow> linked (run m ops)"
  by (induction ops arbitrary: m) (simp_all add: linked_apply_op)

lemma linked_reachable:
  "fresh_ids (SessionManager_init t c) ops \<Longrightarrow> linked (run (SessionManager_init t c) ops)"
  by (simp add: linked_run linked_init)

lemma sessions_fold_pop:
  "map_of (sessions (fold pop_session xs m)) sid =
     (if sid \<in> set xs then None else map_of (sessions m) sid)"
  by (induction xs arbitrary: m) (simp_all add: sessions_pop_session)

lemma index_fold_pop:
  "linked m \<Longrightarrow>
   map_of (user_to_session (fold pop_session xs m)) uid =
     (case map_of (user_to_session m) uid of
        None \<Rightarrow> None | Some sid \<Rightarrow> if sid \<in> set xs then None else Some sid)"
proof (induction xs arbitrary: m)
  case Nil
  then show ?case by (simp split: option.splits)
next
  case (Cons x xs)
  from Cons.prems have il: "index_linked m" by (simp add: linked_iff)
  have "linked (pop_session x m)" using Cons.prems by (rule linked_pop_session)
  from Cons.IH [OF this] show ?case
    by (cases "map_of (user_to_session m) uid") (simp_all add: index_pop_session [OF il])
qed

section \<open>Invariant and sweep\<close>

lemma linked_registry_invariant:
  assumes "linked m"
  shows "registry_invariant m"
  unfolding registry_invariant_def list_all_iff
proof
  fix e assume e: "e \<in> set (user_to_session m)"
  obtain uid sid where [simp]: "e = (uid, sid)" by (cases e)
  from assms have "distinct (map fst (user_to_session m))" by (simp add: linked_iff)
  with e have "map_of (user_to_session m) uid = Some sid" by simp
  with assms obtain s where "map_of (sessions m) sid = Some s" "is_active s"
    by (auto simp: linked_iff dest: index_linkedD)
  then show "index_entry_ok m e" by (simp add: index_entry_ok_def)
qed

text \<open>
  C7. In every state reached from the empty registry by any sequence of registry
  operations (\<open>create_session\<close>, \<open>get_session\<close>, \<open>get_user_session\<close>,
  \<open>add_conversation_turn\<close>, \<open>update_user_context\<close>, \<open>get_conversation_history\<close>,
  \<open>close_session\<close>, \<open>get_session_stats\<close>, the sweep), every session id stored as a
  value of the identity index is a key of the store and names an active session. The ids
  drawn by \<open>create_session\<close> are fresh, as those of \<open>uuid4\<close> are.
\<close>

theorem registry_invariant_reachable:
  assumes "fresh_ids (SessionManager_init t c) ops"
  shows "registry_invariant (run (SessionManager_init t c) ops)"
proof -
  have "linked (SessionManager_init t c)" by (rule linked_init)
  then have "linked (run (SessionManager_init t c) ops)"
    using assms by (rule linked_run)
  then show ?thesis by (rule linked_registry_invariant)
qed

lemmas op_defs =
  SessionManager_init_def create_session_def close_session_def get_session_unfold
  get_user_session_def add_conversation_turn_def add_turn_def update_user_context_def
  get_conversation_history_def cleanup_expired_sessions_def expired_sessions_def
  pop_session_def timedelta_minutes_def is_expired_def

theorem registry_invariant_reachable_witness:
  "fresh_ids (SessionManager_init 60 10) demo_ops
   \<and> registry_invariant (run (SessionManager_init 60 10) demo_ops)
   \<and> user_to_session (run (SessionManager_init 60 10) demo_ops) = [(''alice'', ''s2'')]"
  using registry_invariant_reachable [of 60 10 demo_ops]
  by (simp add: demo_ops_def op_defs)

lemma mem_filtered_keys:
  assumes "distinct (map fst al)"
  shows "k \<in> set (map fst (filter (\<lambda>(k, v). P v) al)) \<longleftrightarrow> (\<exists>v. map_of al k = Some v \<and> P v)"
proof
  assume "k \<in> set (map fst (filter (\<lambda>(k, v). P v) al))"
  then obtain v where "(k, v) \<in> set al" "P v" by auto
  with assms show "\<exists>v. map_of al k = Some v \<and> P v" by auto
next
  assume "\<exists>v. map_of al k = Some v \<and> P v"
  then obtain v where "map_of al k = Some v" "P v" by blast
  then have "(k, v) \<in> set al" by (auto dest: map_of_SomeD)
  with \<open>P v\<close> show "k \<in> set (map fst (filter (\<lambda>(k, v). P v) al))" by force
qed

lemma mem_expired_sessions:
  "distinct (map fst (sessions m)) \<Longrightarrow>
     sid \<in> set (expired_sessions m now) \<longleftrightarrow>
       (\<exists>s. map_of (sessions m) sid = Some s
          \<and> (is_expired s (session_timeout_minutes m) now \<or> \<not> is_active s))"
  unfolding expired_sessions_def by (rule mem_filtered_keys)

lemma sessions_cleanup:
  assumes "distinct (map fst (sessions m))"
  shows "map_of (sessions (cleanup_expired_sessions m now)) sid =
     (case map_of (sessions m) sid of
        None \<Rightarrow> None
      | Some s \<Rightarrow> if is_expired s (session_timeout_minutes m) now \<or> \<not> is_active s
                  then None else Some s)"
  unfolding cleanup_expired_sessions_def sessions_fold_pop mem_expired_sessions [OF assms]
  by (cases "map_of (sessions m) sid") simp_all

lemma index_cleanup:
  assumes "linked m"
  shows "map_of (user_to_session (cleanup_expired_sessions m now)) uid =
     (case map_of (user_to_session m) uid of
        None \<Rightarrow> None
      | Some sid \<Rightarrow> if map_of (sessions (cleanup_expired_sessions m now)) sid = None
                    then None else Some sid)"
proof (cases "map_of (user_to_session m) uid")
  case None
  then show ?thesis
    by (simp add: cleanup_expired_sessions_def index_fold_pop [OF assms])
next
  case (Some sid)
  with assms obtain s where s: "map_of (sessions m) sid = Some s"
    by (auto simp: linked_iff dest: index_linkedD)
  have "map_of (sessions (cleanup_expired_sessions m now)) sid = None
          \<longleftrightarrow> sid \<in> set (expired_sessions m now)"
    using s by (simp add: cleanup_expired_sessions_def sessions_fold_pop)
  with Some show ?thesis
    by (simp add: index_fold_pop [OF assms] cleanup_expired_sessions_def [of m now])
qed

text \<open>
  C6. After one run of the sweep on a reachable registry, every session left in the store
  is active and not expired; a session is left exactly when it was active and not expired
  (all others have been removed); an index entry has been deleted exactly when the id it
  named was removed, so no index entry names a removed id.
\<close>

theorem cleanup_expired_sessions_correct:
  assumes "fresh_ids (SessionManager_init t c) ops"
    and "mgr = run (SessionManager_init t c) ops"
    and "mgr' = cleanup_expired_sessions mgr now"
  shows
   "(\<forall>sid s. map_of (sessions mgr') sid = Some s \<longrightarrow>
        is_active s \<and> \<not> is_expired s (session_timeout_minutes mgr) now)
    \<and> (\<forall>sid. map_of (sessions mgr') sid =
          (case map_of (sessions mgr) sid of
             None \<Rightarrow> None
           | Some s \<Rightarrow> if is_expired s (session_timeout_minutes mgr) now \<or> \<not> is_active s
                       then None else Some s))
    \<and> (\<forall>uid. map_of (user_to_session mgr') uid =
          (case map_of (user_to_session mgr) uid of
             None \<Rightarrow> None
           | Some sid \<Rightarrow> if map_of (sessions mgr') sid = None then None else Some sid))
    \<and> (\<forall>uid sid. map_of (user_to_session mgr') uid = Some sid \<longrightarrow>
          map_of (sessions mgr') sid \<noteq> None)"
proof -
  have l: "linked mgr" using assms(1,2) by (simp add: linked_reachable)
  then have d: "distinct (map fst (sessions mgr))" by (simp add: linked_iff)
  have a: "\<forall>sid s. map_of (sessions mgr') sid = Some s \<longrightarrow>
        is_active s \<and> \<not> is_expired s (session_timeout_minutes mgr) now"
    unfolding assms(3) sessions_cleanup [OF d]
    by (auto split: option.splits if_splits)
  have b: "\<forall>uid sid. map_of (user_to_session mgr') uid = Some sid \<longrightarrow>
          map_of (sessions mgr') sid \<noteq> None"
    unfolding assms(3) index_cleanup [OF l]
    by (auto split: option.splits if_splits)
  from a b show ?thesis
    using sessions_cleanup [OF d, of now] index_cleanup [OF l, of now]
    unfolding assms(3) by blast
qed

theorem cleanup_expired_sessions_correct_witness:
  "fresh_ids (SessionManager_init 60 10) demo_ops
   \<and> map_of (sessions (cleanup_expired_sessions (run (SessionManager_init 60 10) demo_ops) 3600000003))
        ''s1'' = None
   \<and> map_of (user_to_session (cleanup_expired_sessions (run (SessionManager_init 60 10) demo_ops) 3600000003))
        ''alice'' = None"
  using cleanup_expired_sessions_correct [of 60 10 demo_ops _ _ 3600000003, OF _ refl refl]
  by (simp add: demo_ops_def op_defs)

section \<open>Appending, closing, reading\<close>

text \<open>
  C2 (as the code has it). \<open>add_conversation_turn\<close> returns true exactly when the
  id is a key of the store and the session is unexpired, whether or not the session is
  active: \<open>get_session\<close> does not read \<open>is_active\<close>. In that case the turn is appended
  to the session's log and \<open>last_activity\<close> is set to \<open>now\<close>; otherwise it returns false
  and the registry is unchanged.
\<close>

theorem add_conversation_turn_unexpired:
  "(fst (add_conversation_turn mgr sid um br sq conf md now) \<longleftrightarrow>
      (\<exists>s. map_of (sessions mgr) sid = Some s
          \<and> \<not> is_expired s (session_timeout_minutes mgr) now))
   \<and> (\<forall>s. map_of (sessions mgr) sid = Some s
          \<and> \<not> is_expired s (session_timeout_minutes mgr) now \<longrightarrow>
        map_of (sessions (snd (add_conversation_turn mgr sid um br sq conf md now))) sid =
          Some (s\<lparr>conversation_history :=
                    conversation_history s @
                      [\<lparr>timestamp = now, user_message = um, bot_response = br, sql_query = sq,
                        confidence = conf, metadata = (case md of None \<Rightarrow> [] | Some d \<Rightarrow> d)\<rparr>],
                  last_activity := now\<rparr>))
   \<and> (\<not> fst (add_conversation_turn mgr sid um br sq conf md now) \<longrightarrow>
        snd (add_conversation_turn mgr sid um br sq conf md now) = mgr)"
proof (cases "map_of (sessions mgr) sid")
  case None
  then show ?thesis by (simp add: add_conversation_turn_def get_session_def)
next
  case (Some s)
  then show ?thesis
    by (simp add: add_conversation_turn_def get_session_def add_turn_def Let_def
        AList.update_conv')
qed

theorem add_conversation_turn_unexpired_witness:
  "fst (add_conversation_turn alice_closed ''s1'' ''hi'' ''hello'' None (9 / 10) None 1)
   \<and> \<not> fst (add_conversation_turn alice_closed ''s1'' ''hi'' ''hello'' None (9 / 10) None 3600000001)
   \<and> \<not> fst (add_conversation_turn alice_closed ''s9'' ''hi'' ''hello'' None (9 / 10) None 1)"
  using add_conversation_turn_unexpired [of alice_closed "''s1''" "''hi''" "''hello''" None "9 / 10" None 1]
  by (simp add: demo_defs add_conversation_turn_def get_session_unfold)

text \<open>
  C2 fails as stated: \<open>s1\<close> has been closed (\<open>is_active\<close> is false) and is unexpired
  at time 1, yet \<open>add_conversation_turn\<close> returns true and the turn is in its log.
\<close>

theorem add_conversation_turn_closed_counterexample:
  "map_of (sessions alice_closed) ''s1'' = Some alice_closed_session
   \<and> \<not> is_active alice_closed_session
   \<and> \<not> is_expired alice_closed_session (session_timeout_minutes alice_closed) 1
   \<and> add_conversation_turn alice_closed ''s1'' ''hi'' ''hello'' None (9 / 10) None 1 =
       (True,
        \<lparr>sessions =
           [(''s1'', alice_closed_session
               \<lparr>conversation_history :=
                  [\<lparr>timestamp = 1, user_message = ''hi'', bot_response = ''hello'',
                    sql_query = None, confidence = 9 / 10, metadata = []\<rparr>],
                last_activity := 1\<rparr>)],
         user_to_session = [], session_timeout_minutes = 60, cleanup_interval_minutes = 10\<rparr>)"
  by (simp add: demo_defs alice_closed_session_def add_conversation_turn_def get_session_unfold
      add_turn_def is_expired_def)

lemma close_session_inactive_noop:
  assumes "index_linked m" "map_of (sessions m) sid = Some s" "\<not> is_active s"
  shows "close_session m sid = (True, m)"
proof -
  have "map_of (user_to_session m) (user_id s) \<noteq> Some sid"
  proof
    assume "map_of (user_to_session m) (user_id s) = Some sid"
    with assms(1) obtain s' where "map_of (sessions m) sid = Some s'" "is_active s'"
      by (auto dest: index_linkedD)
    with assms(2,3) show False by simp
  qed
  moreover have "s\<lparr>is_active := False\<rparr> = s" using assms(3) by simp
  ultimately show ?thesis
    using assms(2) by (simp add: close_session_def AList.update_triv)
qed

text \<open>
  C8 (as the code has it). On a reachable registry \<open>close_session\<close> returns true
  exactly when the id is a key of the store. Closing again a session that is already
  closed and not yet swept therefore returns true, and leaves the registry as it was;
  closing an id that is not in the store returns false and leaves the registry as it was.
  No path of \<open>close_session\<close> raises.
\<close>

theorem close_session_true_iff_stored:
  assumes "fresh_ids (SessionManager_init t c) ops"
    and "mgr = run (SessionManager_init t c) ops"
  shows
   "(fst (close_session mgr sid) \<longleftrightarrow> map_of (sessions mgr) sid \<noteq> None)
    \<and> (\<forall>s. map_of (sessions mgr) sid = Some s \<and> \<not> is_active s \<longrightarrow>
          close_session mgr sid = (True, mgr))
    \<and> (map_of (sessions mgr) sid = None \<longrightarrow> close_session mgr sid = (False, mgr))"
proof -
  have "index_linked mgr" using assms linked_reachable [of t c ops] by (simp add: linked_iff)
  then have "\<forall>s. map_of (sessions mgr) sid = Some s \<and> \<not> is_active s \<longrightarrow>
          close_session mgr sid = (True, mgr)"
    by (auto intro: close_session_inactive_noop)
  then show ?thesis
    by (cases "map_of (sessions mgr) sid") (simp_all add: close_session_def)
qed

theorem close_session_true_iff_stored_witness:
  "fresh_ids (SessionManager_init 60 10) demo_ops
   \<and> close_session (run (SessionManager_init 60 10) demo_ops) ''s3''
       = (True, run (SessionManager_init 60 10) demo_ops)
   \<and> close_session (run (SessionManager_init 60 10) demo_ops) ''s4''
       = (False, run (SessionManager_init 60 10) demo_ops)"
  using close_session_true_iff_stored [of 60 10 demo_ops _ "''s3''", OF _ refl]
    close_session_true_iff_stored [of 60 10 demo_ops _ "''s4''", OF _ refl]
  by (simp add: demo_ops_def op_defs)

text \<open>
  C8 fails as stated: \<open>s1\<close> is already closed, and closing it again returns true.
\<close>

theorem close_session_repeat_counterexample:
  "map_of (sessions alice_closed) ''s1'' = Some alice_closed_session
   \<and> \<not> is_active alice_closed_session
   \<and> close_session alice_closed ''s1'' = (True, alice_closed)"
  by (simp add: demo_defs alice_closed_session_def)

text \<open>
  C10. For a session that is present and unexpired, \<open>get_conversation_history\<close> sets
  \<open>last_activity\<close> to \<open>now\<close> and leaves the turn log, the user context and \<open>is_active\<close>
  as they were, as well as every other session, the identity index and the timeout; the
  session is then found by any lookup up to \<open>now + TTL\<close>.
\<close>

theorem get_conversation_history_refreshes:
  assumes "map_of (sessions mgr) sid = Some s"
    and "\<not> is_expired s (session_timeout_minutes mgr) now"
    and "mgr' = snd (get_conversation_history mgr sid max_turns now)"
  shows
   "map_of (sessions mgr') sid = Some (s\<lparr>last_activity := now\<rparr>)
    \<and> (\<exists>s'. map_of (sessions mgr') sid = Some s'
          \<and> last_activity s' = now
          \<and> conversation_history s' = conversation_history s
          \<and> user_context s' = user_context s
          \<and> is_active s' = is_active s)
    \<and> (\<forall>k. k \<noteq> sid \<longrightarrow> map_of (sessions mgr') k = map_of (sessions mgr) k)
    \<and> user_to_session mgr' = user_to_session mgr
    \<and> session_timeout_minutes mgr' = session_timeout_minutes mgr
    \<and> (\<forall>t. fst (get_session mgr' sid t) \<noteq> None \<longleftrightarrow>
             t \<le> now + timedelta_minutes (session_timeout_minutes mgr))"
  using assms
  by (simp add: snd_get_conversation_history get_session_unfold is_expired_def not_less
      AList.update_conv')

theorem get_conversation_history_refreshes_witness:
  "map_of (sessions alice_created) ''s1'' =
      Some (alice_closed_session\<lparr>is_active := True\<rparr>)
   \<and> map_of (sessions (snd (get_conversation_history alice_created ''s1'' 10 3600000000))) ''s1'' =
      Some (alice_closed_session\<lparr>is_active := True, last_activity := 3600000000\<rparr>)
   \<and> fst (get_session alice_created ''s1'' 7200000000) = None
   \<and> fst (get_session (snd (get_conversation_history alice_created ''s1'' 10 3600000000))
           ''s1'' 7200000000) \<noteq> None"
  using get_conversation_history_refreshes
          [of alice_created "''s1''" "alice_closed_session\<lparr>is_active := True\<rparr>" 3600000000 _ 10,
           OF _ _ refl]
  by (simp add: demo_defs alice_closed_session_def get_conversation_history_def
      get_session_unfold is_expired_def)

section \<open>Supersession\<close>

lemma length_update_fresh:
  "k \<notin> set (map fst al) \<Longrightarrow> length (AList.update k v al) = Suc (length al)"
  by (induction al) auto

lemma length_update_present:
  "map_of al k = Some w \<Longrightarrow> length (AList.update k v al) = length al"
  by (induction al) (auto split: if_splits)

lemma create_session_effect:
  assumes "new_id \<notin> set (map fst (sessions m))"
  shows "fst (create_session m uid ctx new_id now) = new_id"
    and "map_of (user_to_session (snd (create_session m uid ctx new_id now))) uid = Some new_id"
    and "map_of (sessions (snd (create_session m uid ctx new_id now))) new_id =
           Some \<lparr>session_id = new_id, user_id = uid, created_at = now, last_activity = now,
                 conversation_history = [],
                 user_context = (case ctx of None \<Rightarrow> [] | Some c \<Rightarrow> c), is_active = True\<rparr>"
    and "length (sessions (snd (create_session m uid ctx new_id now))) = Suc (length (sessions m))"
    and "session_timeout_minutes (snd (create_session m uid ctx new_id now)) = session_timeout_minutes m"
proof -
  let ?closed = "case map_of (user_to_session m) uid of
               None \<Rightarrow> sessions m
             | Some old_session_id \<Rightarrow>
                 (case map_of (sessions m) old_session_id of
                    None \<Rightarrow> sessions m
                  | Some old \<Rightarrow> AList.update old_session_id (old\<lparr>is_active := False\<rparr>) (sessions m))"
  have keys: "fst ` set ?closed = fst ` set (sessions m)"
    by (auto simp: AList.dom_update split: option.splits dest: map_of_SomeD intro: rev_image_eqI)
  have len: "length ?closed = length (sessions m)"
    by (simp add: length_update_present split: option.splits)
  from assms keys have "new_id \<notin> set (map fst ?closed)" by simp
  then have "length (AList.update new_id v ?closed) = Suc (length (sessions m))" for v
    using len by (simp add: length_update_fresh)
  then show "length (sessions (snd (create_session m uid ctx new_id now))) = Suc (length (sessions m))"
    by (simp add: create_session_def Let_def)
qed (simp_all add: create_session_def Let_def AList.update_conv')

lemma create_session_supersedes:
  assumes "map_of (user_to_session m) uid = Some old" "map_of (sessions m) old = Some s"
    "new_id \<noteq> old"
  shows "map_of (sessions (snd (create_session m uid ctx new_id now))) old =
           Some (s\<lparr>is_active := False\<rparr>)"
  using assms by (simp add: create_session_def Let_def AList.update_conv')

lemma cleanup_removes_inactive:
  assumes "map_of (sessions m) sid = Some s" "\<not> is_active s"
  shows "map_of (sessions (cleanup_expired_sessions m now)) sid = None"
proof -
  from assms(1) have "(sid, s) \<in> set (sessions m)" by (rule map_of_SomeD)
  with assms(2) have "sid \<in> set (expired_sessions m now)"
    unfolding expired_sessions_def by force
  then show ?thesis by (simp add: cleanup_expired_sessions_def sessions_fold_pop)
qed

text \<open>
  C5. Two successive calls of \<open>create_session\<close> for one user, each drawing a fresh id,
  return two distinct ids. After the second call the first session is still a key of the
  store, with \<open>is_active\<close> false; the index of the user names the second id, so
  \<open>get_user_session\<close> can only return the second session; \<open>total_sessions\<close> counts both
  sessions; and a run of the sweep removes the first one.
\<close>

theorem create_session_twice_supersedes:
  assumes "sid1 \<notin> set (map fst (sessions m0))"
    and "create_session m0 uid ctx1 sid1 t1 = (r1, m1)"
    and "sid2 \<notin> set (map fst (sessions m1))"
    and "create_session m1 uid ctx2 sid2 t2 = (r2, m2)"
  shows
   "r1 \<noteq> r2
    \<and> (\<exists>s. map_of (sessions m2) r1 = Some s \<and> \<not> is_active s \<and> session_id s = r1)
    \<and> map_of (user_to_session m2) uid = Some r2
    \<and> (\<forall>now s. fst (get_user_session m2 uid now) = Some s \<longrightarrow> session_id s = r2)
    \<and> r1 \<in> set (map fst (sessions m2))
    \<and> total_sessions (get_session_stats m2) = total_sessions (get_session_stats m0) + 2
    \<and> (\<forall>now. map_of (sessions (cleanup_expired_sessions m2 now)) r1 = None)"
proof -
  from assms(2) have r1: "r1 = sid1" and m1: "m1 = snd (create_session m0 uid ctx1 sid1 t1)"
    using create_session_effect(1) [OF assms(1), of uid ctx1 t1] by auto
  from assms(4) have r2: "r2 = sid2" and m2: "m2 = snd (create_session m1 uid ctx2 sid2 t2)"
    using create_session_effect(1) [OF assms(3), of uid ctx2 t2] by auto
  note e1 = create_session_effect [OF assms(1), of uid ctx1 t1, folded m1]
  note e2 = create_session_effect [OF assms(3), of uid ctx2 t2, folded m2]
  from e1(3) have "sid1 \<in> set (map fst (sessions m1))"
    by (auto dest!: map_of_SomeD intro: rev_image_eqI)
  with assms(3) have ne: "sid2 \<noteq> sid1" by auto
  have old: "map_of (sessions m2) sid1 =
      Some (\<lparr>session_id = sid1, user_id = uid, created_at = t1, last_activity = t1,
             conversation_history = [],
             user_context = (case ctx1 of None \<Rightarrow> [] | Some c \<Rightarrow> c), is_active = True\<rparr>
            \<lparr>is_active := False\<rparr>)"
    unfolding m2 using e1(2) e1(3) ne by (rule create_session_supersedes)
  have reach: "session_id s = sid2" if "fst (get_user_session m2 uid now) = Some s" for now s
    using that e2(2) e2(3)
    by (auto simp: get_user_session_def get_session_unfold split: if_splits)
  have inkeys: "sid1 \<in> set (map fst (sessions m2))"
    using old by (auto dest!: map_of_SomeD intro: rev_image_eqI)
  have swept: "map_of (sessions (cleanup_expired_sessions m2 now)) sid1 = None" for now
    using old by (rule cleanup_removes_inactive) simp
  show ?thesis
    unfolding r1 r2
    using ne old e2(2) reach inkeys swept e1(4) e2(4)
    by (simp add: get_session_stats_def)
qed

theorem create_session_twice_supersedes_witness:
  "''s1'' \<notin> set (map fst (sessions registry0))
   \<and> ''s2'' \<notin> set (map fst (sessions alice_created))
   \<and> fst (get_user_session alice_created ''alice'' 5) \<noteq> None
   \<and> map_of (sessions (snd (create_session alice_created ''alice'' None ''s2'' 5))) ''s1''
        = Some alice_closed_session
   \<and> total_sessions (get_session_stats (snd (create_session alice_created ''alice'' None ''s2'' 5))) = 2
   \<and> map_of (sessions (cleanup_expired_sessions
                          (snd (create_session alice_created ''alice'' None ''s2'' 5)) 6)) ''s1'' = None"
  using create_session_twice_supersedes
          [of "''s1''" registry0 "''alice''" None 0 "''s1''" alice_created "''s2''" None 5 "''s2''"
              "snd (create_session alice_created ''alice'' None ''s2'' 5)"]
  by (simp add: demo_defs alice_closed_session_def get_session_stats_def op_defs)

section \<open>The request coordinator\<close>

lemma process_user_request_unfold:
  assumes "map_of (user_locks cm) uid \<noteq> Some True"
  shows "process_user_request cm uid msg P ctx nid t1 t2 t3 =
     (case get_or_create_session (session_manager cm) uid ctx nid t1 t2 t3 of
        (None, m1) \<Rightarrow>
          Some (Raise (RuntimeError (''Could not create or retrieve session for user '' @ uid)),
                \<lparr>session_manager = m1, user_locks = AList.update uid False (user_locks cm)\<rparr>)
      | (Some s, m1) \<Rightarrow>
          (case P s msg ctx m1 of
             (Inl e, m2) \<Rightarrow>
               Some (Raise e, \<lparr>session_manager = m2, user_locks = AList.update uid False (user_locks cm)\<rparr>)
           | (Inr r, m2) \<Rightarrow>
               Some (Return r, \<lparr>session_manager = m2, user_locks = AList.update uid False (user_locks cm)\<rparr>)))"
proof -
  obtain held where h: "acquire uid (user_locks (get_user_lock cm uid)) = Some held"
    "release uid held = AList.update uid False (user_locks cm)"
    using assms
    by (cases "map_of (user_locks cm) uid")
       (auto simp: get_user_lock_def acquire_def release_def AList.update_conv' split: bool.splits)
  have sm: "session_manager (get_user_lock cm uid) = session_manager cm"
    by (simp add: get_user_lock_def split: option.splits)
  show ?thesis
    by (simp add: process_user_request_def Let_def h sm split: prod.splits option.splits sum.splits)
qed

lemma process_user_request_waits:
  "map_of (user_locks cm) uid = Some True \<Longrightarrow>
     process_user_request cm uid msg P ctx nid t1 t2 t3 = None"
  by (simp add: process_user_request_def get_user_lock_def acquire_def)

lemma get_or_create_session_found:
  assumes "map_of (user_to_session m) uid = Some sid" "sid \<noteq> []"
    "map_of (sessions m) sid = Some s0" "\<not> is_expired s0 (session_timeout_minutes m) t1"
  shows "get_or_create_session m uid ctx nid t1 t2 t3 =
           (Some (s0\<lparr>last_activity := t1\<rparr>),
            m\<lparr>sessions := AList.update sid (s0\<lparr>last_activity := t1\<rparr>) (sessions m)\<rparr>)"
  using assms
  by (simp add: get_or_create_session_def get_user_session_def get_session_def Let_def)

lemma get_or_create_session_stored:
  assumes kc: "keys_consistent m0"
    and res: "get_or_create_session m0 uid ctx nid t1 t2 t3 = (Some s, m)"
  shows "map_of (sessions m) (session_id s) = Some s"
proof (cases "fst (get_user_session m0 uid t1)")
  case (Some s')
  then obtain m' where g: "get_user_session m0 uid t1 = (Some s', m')"
    by (cases "get_user_session m0 uid t1") auto
  with res have eq: "s' = s" "m' = m" by (simp_all add: get_or_create_session_def)
  from g obtain sid where "get_session m0 sid t1 = (Some s, m)"
    unfolding eq by (auto simp: get_user_session_def split: option.splits if_splits)
  then obtain s0 where s0: "map_of (sessions m0) sid = Some s0" "s = s0\<lparr>last_activity := t1\<rparr>"
      "m = m0\<lparr>sessions := AList.update sid s (sessions m0)\<rparr>"
    by (auto dest: get_session_Some_stored)
  from kc s0(1) have "session_id s0 = sid" by (simp add: keys_consistent_def)
  with s0 show ?thesis by (simp add: AList.update_conv')
next
  case None
  then obtain m' where g: "get_user_session m0 uid t1 = (None, m')"
    by (cases "get_user_session m0 uid t1") auto
  let ?mc = "snd (create_session m' uid ctx nid t2)"
  from res g have gs: "get_session ?mc nid t3 = (Some s, m)"
    by (simp add: get_or_create_session_def create_session_def Let_def)
  then obtain s0 where s0: "map_of (sessions ?mc) nid = Some s0" "s = s0\<lparr>last_activity := t3\<rparr>"
      "m = ?mc\<lparr>sessions := AList.update nid s (sessions ?mc)\<rparr>"
    by (auto dest: get_session_Some_stored)
  from s0(1) have "session_id s0 = nid"
    by (auto simp: create_session_def Let_def AList.update_conv')
  with s0 show ?thesis by (simp add: AList.update_conv')
qed

lemma add_conversation_turn_stored:
  assumes "map_of (sessions m) sid = Some s" "\<not> is_expired s (session_timeout_minutes m) now"
  shows "map_of (sessions (snd (add_conversation_turn m sid um br sq conf md now))) sid =
           Some (add_turn (s\<lparr>last_activity := now\<rparr>) um br sq conf md now)"
  using assms
  by (simp add: add_conversation_turn_def get_session_def Let_def AList.update_conv')

lemma set_contextual_info_frame:
  assumes "map_of (sessions m) k = Some s"
  shows "map_of (sessions (set_contextual_info k info m)) k =
           Some (s\<lparr>user_context := AList.update ''contextual_info'' (PyStr info) (user_context s)\<rparr>)"
    and "session_timeout_minutes (set_contextual_info k info m) = session_timeout_minutes m"
  using assms by (simp_all add: set_contextual_info_def AList.update_conv')

lemma query_processor_success:
  assumes "query_processor ext uid t_app s msg ctx m = (Inr r, m2)"
  shows "\<exists>m1. (m1 = m \<or> (\<exists>info. m1 = set_contextual_info (session_id s) info m))
           \<and> m2 = snd (add_conversation_turn m1 (session_id s) msg (response_text r)
                          (ProcessedResponse.sql_query r) (ProcessedResponse.confidence r)
                          (Some [(''requires_followup'', PyBool (requires_followup r))]) t_app)"
proof -
  from assms obtain info where i: "get_contextual_information ext msg (get_recent_context s 5) = Inr info"
    by (cases "get_contextual_information ext msg (get_recent_context s 5)")
       (auto simp: query_processor_def)
  define m1 where "m1 = (if info \<noteq> [] \<and> user_context s \<noteq> []
                         then set_contextual_info (session_id s) info m else m)"
  have m1: "m1 = m \<or> (\<exists>info. m1 = set_contextual_info (session_id s) info m)"
    unfolding m1_def by auto
  have "m2 = snd (add_conversation_turn m1 (session_id s) msg (response_text r)
                          (ProcessedResponse.sql_query r) (ProcessedResponse.confidence r)
                          (Some [(''requires_followup'', PyBool (requires_followup r))]) t_app)"
    using assms i unfolding m1_def
    by (auto simp: query_processor_def Let_def split: if_splits sum.splits prod.splits)
  with m1 show ?thesis by blast
qed

lemma keys_consistent_update:
  "keys_consistent m \<Longrightarrow> session_id s' = sid \<Longrightarrow>
     keys_consistent (m\<lparr>sessions := AList.update sid s' (sessions m)\<rparr>)"
  by (simp add: keys_consistent_def AList.update_conv')

lemma keys_consistent_get_session:
  assumes "keys_consistent m"
  shows "keys_consistent (snd (get_session m sid now))"
proof (cases "fst (get_session m sid now)")
  case None
  then have "get_session m sid now = (None, snd (get_session m sid now))"
    by (cases "get_session m sid now") simp
  with assms show ?thesis by (auto dest: get_session_None_same)
next
  case (Some s)
  then have "get_session m sid now = (Some s, snd (get_session m sid now))"
    by (cases "get_session m sid now") simp
  then obtain s0 where s0: "map_of (sessions m) sid = Some s0" "s = s0\<lparr>last_activity := now\<rparr>"
      "snd (get_session m sid now) = m\<lparr>sessions := AList.update sid s (sessions m)\<rparr>"
    by (auto dest: get_session_Some_stored)
  from assms s0(1) have "session_id s0 = sid" by (simp add: keys_consistent_def)
  with s0 assms show ?thesis by (simp add: keys_consistent_update)
qed

lemma get_session_result_id:
  "keys_consistent m \<Longrightarrow> get_session m sid now = (Some s, m') \<Longrightarrow>
     session_id s = sid \<and> keys_consistent m'"
  using keys_consistent_get_session [of m sid now]
  by (auto simp: keys_consistent_def dest!: get_session_Some_stored)

lemma keys_consistent_add_conversation_turn:
  assumes "keys_consistent m"
  shows "keys_consistent (snd (add_conversation_turn m sid um br sq conf md now))"
proof (cases "get_session m sid now")
  case (Pair r m')
  show ?thesis
  proof (cases r)
    case None
    with Pair assms show ?thesis
      by (auto simp: add_conversation_turn_def dest: get_session_None_same)
  next
    case (Some s)
    with Pair assms have "session_id s = sid" "keys_consistent m'"
      by (auto dest: get_session_result_id)
    with Pair Some show ?thesis
      by (simp add: add_conversation_turn_def keys_consistent_update add_turn_def)
  qed
qed

lemma keys_consistent_update_user_context:
  assumes "keys_consistent m"
  shows "keys_consistent (snd (update_user_context m sid ups now))"
proof (cases "get_session m sid now")
  case (Pair r m')
  show ?thesis
  proof (cases r)
    case None
    with Pair assms show ?thesis
      by (auto simp: update_user_context_def dest: get_session_None_same)
  next
    case (Some s)
    with Pair assms have "session_id s = sid" "keys_consistent m'"
      by (auto dest: get_session_result_id)
    with Pair Some show ?thesis
      by (simp add: update_user_context_def keys_consistent_update)
  qed
qed

lemma keys_consistent_create_session:
  "keys_consistent m \<Longrightarrow> keys_consistent (snd (create_session m uid ctx new_id now))"
  by (auto simp: keys_consistent_def create_session_def Let_def AList.update_conv'
      split: option.splits if_splits)

lemma keys_consistent_close_session:
  "keys_consistent m \<Longrightarrow> keys_consistent (snd (close_session m sid))"
  by (cases "map_of (sessions m) sid")
     (auto simp: keys_consistent_def close_session_def AList.update_conv' split: if_splits)

lemma keys_consistent_cleanup:
  "keys_consistent m \<Longrightarrow> keys_consistent (cleanup_expired_sessions m now)"
  by (simp add: keys_consistent_def cleanup_expired_sessions_def sessions_fold_pop)

lemma keys_consistent_apply_op: "keys_consistent m \<Longrightarrow> keys_consistent (apply_op m x)"
  by (cases x)
     (simp_all add: keys_consistent_create_session keys_consistent_get_session
        get_user_session_def keys_consistent_add_conversation_turn
        keys_consistent_update_user_context snd_get_conversation_history
        keys_consistent_close_session keys_consistent_cleanup split: option.splits)

lemma keys_consistent_run: "keys_consistent m \<Longrightarrow> keys_consistent (run m ops)"
  by (induction ops arbitrary: m) (simp_all add: keys_consistent_apply_op)

lemma keys_consistent_reachable: "keys_consistent (run (SessionManager_init t c) ops)"
  by (rule keys_consistent_run) (simp add: keys_consistent_def SessionManager_init_def)


text \<open>
  C3 (as the code has it). \<open>process_user_request\<close> appends no turn: when the gate is
  free and \<open>processor_func\<close> returns, it returns that result and leaves the registry
  exactly as \<open>processor_func\<close> left it. The turn is appended inside the callback: with
  \<open>query_processor\<close> of \<open>main.py\<close> as \<open>processor_func\<close>, when the session is still
  unexpired at the time of the callback's \<open>add_conversation_turn\<close>, the log of the session
  after the call is the log before it followed by exactly one turn carrying the message
  and the response.
\<close>

theorem process_user_request_delegates_append:
  assumes gate: "map_of (user_locks cm) uid \<noteq> Some True"
    and res: "get_or_create_session (session_manager cm) uid ctx nid t1 t2 t3 = (Some s, m)"
  shows
   "(\<forall>P r m2. P s msg ctx m = (Inr r, m2) \<longrightarrow>
        process_user_request cm uid msg P ctx nid t1 t2 t3 =
          Some (Return (r :: 'r),
                \<lparr>session_manager = m2, user_locks = AList.update uid False (user_locks cm)\<rparr>))
    \<and> (\<forall>ext t_app r m2.
          keys_consistent (session_manager cm)
          \<and> query_processor ext uid t_app s msg ctx m = (Inr r, m2)
          \<and> \<not> is_expired s (session_timeout_minutes m) t_app \<longrightarrow>
          process_user_request cm uid msg (query_processor ext uid t_app) ctx nid t1 t2 t3 =
            Some (Return r,
                  \<lparr>session_manager = m2, user_locks = AList.update uid False (user_locks cm)\<rparr>)
          \<and> (\<exists>s'. map_of (sessions m2) (session_id s) = Some s'
                \<and> conversation_history s' =
                    conversation_history s @
                      [\<lparr>timestamp = t_app, user_message = msg, bot_response = response_text r,
                        sql_query = ProcessedResponse.sql_query r,
                        confidence = ProcessedResponse.confidence r,
                        metadata = [(''requires_followup'', PyBool (requires_followup r))]\<rparr>]))"
proof (intro conjI allI impI)
  fix P :: "'r processor_func" and r m2
  assume "P s msg ctx m = (Inr r, m2)"
  then show "process_user_request cm uid msg P ctx nid t1 t2 t3 =
          Some (Return r, \<lparr>session_manager = m2, user_locks = AList.update uid False (user_locks cm)\<rparr>)"
    by (simp add: process_user_request_unfold [OF gate] res)
next
  fix ext t_app r m2
  assume a: "keys_consistent (session_manager cm)
          \<and> query_processor ext uid t_app s msg ctx m = (Inr r, m2)
          \<and> \<not> is_expired s (session_timeout_minutes m) t_app"
  then show "process_user_request cm uid msg (query_processor ext uid t_app) ctx nid t1 t2 t3 =
            Some (Return r, \<lparr>session_manager = m2, user_locks = AList.update uid False (user_locks cm)\<rparr>)"
    by (simp add: process_user_request_unfold [OF gate] res)
  from a res have st: "map_of (sessions m) (session_id s) = Some s"
    by (auto intro: get_or_create_session_stored)
  from a obtain m1 where m1: "m1 = m \<or> (\<exists>info. m1 = set_contextual_info (session_id s) info m)"
    and m2: "m2 = snd (add_conversation_turn m1 (session_id s) msg (response_text r)
                          (ProcessedResponse.sql_query r) (ProcessedResponse.confidence r)
                          (Some [(''requires_followup'', PyBool (requires_followup r))]) t_app)"
    by (auto dest: query_processor_success)
  from m1 st obtain s1 where s1: "map_of (sessions m1) (session_id s) = Some s1"
      "conversation_history s1 = conversation_history s" "last_activity s1 = last_activity s"
      "session_timeout_minutes m1 = session_timeout_minutes m"
    by (auto simp: set_contextual_info_frame)
  from a s1 have "\<not> is_expired s1 (session_timeout_minutes m1) t_app"
    by (simp add: is_expired_def)
  from add_conversation_turn_stored [OF s1(1) this] s1(2)
  show "\<exists>s'. map_of (sessions m2) (session_id s) = Some s'
                \<and> conversation_history s' =
                    conversation_history s @
                      [\<lparr>timestamp = t_app, user_message = msg, bot_response = response_text r,
                        sql_query = ProcessedResponse.sql_query r,
                        confidence = ProcessedResponse.confidence r,
                        metadata = [(''requires_followup'', PyBool (requires_followup r))]\<rparr>]"
    unfolding m2 by (simp add: add_turn_def)
qed

lemmas coordinator_defs =
  ThreadSafeContextManager_init_def process_user_request_def get_user_lock_def acquire_def
  release_def get_or_create_session_def get_user_session_def get_session_unfold
  add_conversation_turn_def add_turn_def is_expired_def

theorem process_user_request_delegates_append_witness:
  "process_user_request (ThreadSafeContextManager_init alice_created) ''alice'' ''hi''
      (query_processor demo_collaborators ''alice'' 2) None ''s2'' 1 1 1 =
     Some (Return \<lparr>response_text = ''hello'', sql_query = None, data = None,
                    confidence = 9 / 10, session_id = ''s1'', requires_followup = False\<rparr>,
           \<lparr>session_manager =
              \<lparr>sessions =
                 [(''s1'', \<lparr>session_id = ''s1'', user_id = ''alice'', created_at = 0,
                            last_activity = 2,
                            conversation_history =
                              [\<lparr>timestamp = 2, user_message = ''hi'', bot_response = ''hello'',
                                sql_query = None, confidence = 9 / 10,
                                metadata = [(''requires_followup'', PyBool False)]\<rparr>],
                            user_context = [], is_active = True\<rparr>)],
               user_to_session = [(''alice'', ''s1'')],
               session_timeout_minutes = 60, cleanup_interval_minutes = 10\<rparr>,
            user_locks = [(''alice'', False)]\<rparr>)"
  using process_user_request_delegates_append
          [of "ThreadSafeContextManager_init alice_created" "''alice''" None "''s2''" 1 1 1
              "alice_closed_session\<lparr>is_active := True, last_activity := 1\<rparr>"
              "alice_created\<lparr>sessions := [(''s1'', alice_closed_session\<lparr>is_active := True, last_activity := 1\<rparr>)]\<rparr>"
              "''hi''"]
  by (simp add: demo_defs alice_closed_session_def coordinator_defs query_processor_def
      demo_collaborators_def get_recent_context_def keys_consistent_def)

text \<open>
  C3 fails as stated: with a callback that returns a result and appends nothing,
  \<open>process_user_request\<close> succeeds and the turn log of the session is still empty.
\<close>

theorem process_user_request_no_append_counterexample:
  "process_user_request (ThreadSafeContextManager_init alice_created) ''alice'' ''hi''
      silent_processor None ''s2'' 1 1 1 =
     Some (Return ''ok'',
           \<lparr>session_manager =
              \<lparr>sessions =
                 [(''s1'', \<lparr>session_id = ''s1'', user_id = ''alice'', created_at = 0,
                            last_activity = 1, conversation_history = [],
                            user_context = [], is_active = True\<rparr>)],
               user_to_session = [(''alice'', ''s1'')],
               session_timeout_minutes = 60, cleanup_interval_minutes = 10\<rparr>,
            user_locks = [(''alice'', False)]\<rparr>)"
  by (simp add: demo_defs coordinator_defs silent_processor_def)

lemma get_user_session_miss:
  assumes "\<not> (\<exists>sid s0. map_of (user_to_session mgr) uid = Some sid \<and> sid \<noteq> []
             \<and> map_of (sessions mgr) sid = Some s0
             \<and> \<not> is_expired s0 (session_timeout_minutes mgr) t1)"
  shows "get_user_session mgr uid t1 = (None, mgr)"
proof (cases "map_of (user_to_session mgr) uid")
  case None
  then show ?thesis by (simp add: get_user_session_def)
next
  case (Some sid)
  show ?thesis
  proof (cases "sid = []")
    case True
    with Some show ?thesis by (simp add: get_user_session_def)
  next
    case False
    show ?thesis
    proof (cases "map_of (sessions mgr) sid")
      case None
      with Some False show ?thesis by (simp add: get_user_session_def get_session_def)
    next
      case (Some s0)
      with assms \<open>map_of (user_to_session mgr) uid = Some sid\<close> False
      have "is_expired s0 (session_timeout_minutes mgr) t1" by blast
      with Some \<open>map_of (user_to_session mgr) uid = Some sid\<close> False show ?thesis
        by (simp add: get_user_session_def get_session_def)
    qed
  qed
qed

lemma create_session_store:
  "map_of (sessions (snd (create_session mgr uid ctx nid now))) k =
     (if k = nid
      then Some \<lparr>session_id = nid, user_id = uid, created_at = now, last_activity = now,
                 conversation_history = [],
                 user_context = (case ctx of None \<Rightarrow> [] | Some c \<Rightarrow> c), is_active = True\<rparr>
      else (case map_of (sessions mgr) k of
              None \<Rightarrow> None
            | Some x \<Rightarrow> Some (if map_of (user_to_session mgr) uid = Some k
                              then x\<lparr>is_active := False\<rparr> else x)))"
  by (cases "map_of (user_to_session mgr) uid")
     (auto simp: create_session_def Let_def AList.update_conv' split: option.splits)

lemma create_session_index:
  "map_of (user_to_session (snd (create_session mgr uid ctx nid now))) u =
     (if u = uid then Some nid else map_of (user_to_session mgr) u)"
  by (simp add: create_session_def Let_def AList.update_conv')

lemma get_or_create_session_miss:
  assumes miss: "\<not> (\<exists>sid s0. map_of (user_to_session mgr) uid = Some sid \<and> sid \<noteq> []
             \<and> map_of (sessions mgr) sid = Some s0
             \<and> \<not> is_expired s0 (session_timeout_minutes mgr) t1)"
    and res: "get_or_create_session mgr uid ctx nid t1 t2 t3 = (Some s, m)"
  shows "s = \<lparr>session_id = nid, user_id = uid, created_at = t2, last_activity = t3,
               conversation_history = [],
               user_context = (case ctx of None \<Rightarrow> [] | Some c \<Rightarrow> c), is_active = True\<rparr>"
    and "map_of (sessions m) nid = Some s"
    and "\<forall>k. k \<noteq> nid \<longrightarrow>
           map_of (sessions m) k =
             (case map_of (sessions mgr) k of
                None \<Rightarrow> None
              | Some x \<Rightarrow> Some (if map_of (user_to_session mgr) uid = Some k
                                then x\<lparr>is_active := False\<rparr> else x))"
    and "\<forall>u. map_of (user_to_session m) u =
               (if u = uid then Some nid else map_of (user_to_session mgr) u)"
    and "session_timeout_minutes m = session_timeout_minutes mgr"
proof -
  let ?mc = "snd (create_session mgr uid ctx nid t2)"
  have "get_user_session mgr uid t1 = (None, mgr)" using miss by (rule get_user_session_miss)
  with res have "get_session ?mc nid t3 = (Some s, m)"
    by (simp add: get_or_create_session_def create_session_def Let_def)
  then obtain s0 where s0: "map_of (sessions ?mc) nid = Some s0" "s = s0\<lparr>last_activity := t3\<rparr>"
      "m = ?mc\<lparr>sessions := AList.update nid s (sessions ?mc)\<rparr>"
    by (auto dest: get_session_Some_stored)
  from s0(1,2) show "s = \<lparr>session_id = nid, user_id = uid, created_at = t2, last_activity = t3,
               conversation_history = [],
               user_context = (case ctx of None \<Rightarrow> [] | Some c \<Rightarrow> c), is_active = True\<rparr>"
    by (auto simp: create_session_store)
  from s0(3) show "map_of (sessions m) nid = Some s" by (simp add: AList.update_conv')
  from s0(3) show "\<forall>k. k \<noteq> nid \<longrightarrow>
           map_of (sessions m) k =
             (case map_of (sessions mgr) k of
                None \<Rightarrow> None
              | Some x \<Rightarrow> Some (if map_of (user_to_session mgr) uid = Some k
                                then x\<lparr>is_active := False\<rparr> else x))"
    by (simp add: AList.update_conv' create_session_store)
  from s0(3) show "\<forall>u. map_of (user_to_session m) u =
               (if u = uid then Some nid else map_of (user_to_session mgr) u)"
    by (simp add: create_session_index)
  from s0(3) show "session_timeout_minutes m = session_timeout_minutes mgr"
    by (simp add: create_session_def Let_def)
qed

text \<open>
  C4 (as the code has it). When the gate is free and \<open>processor_func\<close> raises,
  \<open>process_user_request\<close> returns with that same exception, the gate of the user is free
  afterwards, and the registry is exactly what \<open>processor_func\<close> left: the coordinator
  appends nothing and changes nothing after the failure. What the call did before the
  failure is the lookup under \<open># Get or create session\<close>, in one of two ways.
  When the index of the user names a stored, unexpired session, the state handed to
  \<open>processor_func\<close> differs from the state before the call only in the \<open>last_activity\<close>
  of that session. In every other case a session has been created: the state handed to
  \<open>processor_func\<close> holds the new session with an empty log under the new id, the index
  of the user names the new id, the session the index named before (if stored) has
  \<open>is_active\<close> false, and nothing else differs. So if \<open>processor_func\<close> changed nothing
  before it raised, no session has a turn more than before the call.
\<close>

theorem process_user_request_failure:
  assumes gate: "map_of (user_locks cm) uid \<noteq> Some True"
    and res: "get_or_create_session (session_manager cm) uid ctx nid t1 t2 t3 = (Some s, m)"
    and fails: "P s msg ctx m = (Inl e, m2)"
  shows
   "process_user_request cm uid msg P ctx nid t1 t2 t3 =
      Some (Raise e, \<lparr>session_manager = m2, user_locks = AList.update uid False (user_locks cm)\<rparr>)
    \<and> map_of (AList.update uid False (user_locks cm)) uid = Some False
    \<and> (\<forall>sid s0. map_of (user_to_session (session_manager cm)) uid = Some sid \<and> sid \<noteq> []
           \<and> map_of (sessions (session_manager cm)) sid = Some s0
           \<and> \<not> is_expired s0 (session_timeout_minutes (session_manager cm)) t1 \<longrightarrow>
         s = s0\<lparr>last_activity := t1\<rparr>
         \<and> m = (session_manager cm)
                 \<lparr>sessions := AList.update sid (s0\<lparr>last_activity := t1\<rparr>)
                                 (sessions (session_manager cm))\<rparr>
         \<and> (m2 = m \<longrightarrow>
              map_of (sessions m2) sid = Some (s0\<lparr>last_activity := t1\<rparr>)
              \<and> conversation_history (s0\<lparr>last_activity := t1\<rparr>) = conversation_history s0))
    \<and> (\<not> (\<exists>sid s0. map_of (user_to_session (session_manager cm)) uid = Some sid \<and> sid \<noteq> []
              \<and> map_of (sessions (session_manager cm)) sid = Some s0
              \<and> \<not> is_expired s0 (session_timeout_minutes (session_manager cm)) t1) \<longrightarrow>
         s = \<lparr>session_id = nid, user_id = uid, created_at = t2, last_activity = t3,
               conversation_history = [],
               user_context = (case ctx of None \<Rightarrow> [] | Some c \<Rightarrow> c), is_active = True\<rparr>
         \<and> map_of (sessions m) nid = Some s
         \<and> (\<forall>k. k \<noteq> nid \<longrightarrow>
               map_of (sessions m) k =
                 (case map_of (sessions (session_manager cm)) k of
                    None \<Rightarrow> None
                  | Some x \<Rightarrow> Some (if map_of (user_to_session (session_manager cm)) uid = Some k
                                    then x\<lparr>is_active := False\<rparr> else x)))
         \<and> (\<forall>u. map_of (user_to_session m) u =
                   (if u = uid then Some nid else map_of (user_to_session (session_manager cm)) u))
         \<and> (m2 = m \<longrightarrow>
              map_of (sessions m2) nid = Some s \<and> conversation_history s = []
              \<and> (\<forall>k x. k \<noteq> nid \<and> map_of (sessions (session_manager cm)) k = Some x \<longrightarrow>
                    (\<exists>x'. map_of (sessions m2) k = Some x'
                        \<and> conversation_history x' = conversation_history x))))"
proof (intro conjI)
  show "process_user_request cm uid msg P ctx nid t1 t2 t3 =
      Some (Raise e, \<lparr>session_manager = m2, user_locks = AList.update uid False (user_locks cm)\<rparr>)"
    by (simp add: process_user_request_unfold [OF gate] res fails)
next
  show "map_of (AList.update uid False (user_locks cm)) uid = Some False"
    by (simp add: AList.update_conv')
next
  show "\<forall>sid s0. map_of (user_to_session (session_manager cm)) uid = Some sid \<and> sid \<noteq> []
           \<and> map_of (sessions (session_manager cm)) sid = Some s0
           \<and> \<not> is_expired s0 (session_timeout_minutes (session_manager cm)) t1 \<longrightarrow>
         s = s0\<lparr>last_activity := t1\<rparr>
         \<and> m = (session_manager cm)
                 \<lparr>sessions := AList.update sid (s0\<lparr>last_activity := t1\<rparr>)
                                 (sessions (session_manager cm))\<rparr>
         \<and> (m2 = m \<longrightarrow>
              map_of (sessions m2) sid = Some (s0\<lparr>last_activity := t1\<rparr>)
              \<and> conversation_history (s0\<lparr>last_activity := t1\<rparr>) = conversation_history s0)"
  proof (intro allI impI)
    fix sid s0
    assume a: "map_of (user_to_session (session_manager cm)) uid = Some sid \<and> sid \<noteq> []
           \<and> map_of (sessions (session_manager cm)) sid = Some s0
           \<and> \<not> is_expired s0 (session_timeout_minutes (session_manager cm)) t1"
    then have "get_or_create_session (session_manager cm) uid ctx nid t1 t2 t3 =
           (Some (s0\<lparr>last_activity := t1\<rparr>),
            (session_manager cm)\<lparr>sessions := AList.update sid (s0\<lparr>last_activity := t1\<rparr>)
                                    (sessions (session_manager cm))\<rparr>)"
      by (intro get_or_create_session_found) auto
    with res have seq: "s = s0\<lparr>last_activity := t1\<rparr>"
      and meq: "m = (session_manager cm)
                 \<lparr>sessions := AList.update sid (s0\<lparr>last_activity := t1\<rparr>)
                                 (sessions (session_manager cm))\<rparr>"
      by auto
    from meq have "m2 = m \<longrightarrow> map_of (sessions m2) sid = Some (s0\<lparr>last_activity := t1\<rparr>)"
      by (simp add: AList.update_conv')
    with seq meq show "s = s0\<lparr>last_activity := t1\<rparr>
         \<and> m = (session_manager cm)
                 \<lparr>sessions := AList.update sid (s0\<lparr>last_activity := t1\<rparr>)
                                 (sessions (session_manager cm))\<rparr>
         \<and> (m2 = m \<longrightarrow>
              map_of (sessions m2) sid = Some (s0\<lparr>last_activity := t1\<rparr>)
              \<and> conversation_history (s0\<lparr>last_activity := t1\<rparr>) = conversation_history s0)"
      by simp
  qed
next
  show "\<not> (\<exists>sid s0. map_of (user_to_session (session_manager cm)) uid = Some sid \<and> sid \<noteq> []
              \<and> map_of (sessions (session_manager cm)) sid = Some s0
              \<and> \<not> is_expired s0 (session_timeout_minutes (session_manager cm)) t1) \<longrightarrow>
         s = \<lparr>session_id = nid, user_id = uid, created_at = t2, last_activity = t3,
               conversation_history = [],
               user_context = (case ctx of None \<Rightarrow> [] | Some c \<Rightarrow> c), is_active = True\<rparr>
         \<and> map_of (sessions m) nid = Some s
         \<and> (\<forall>k. k \<noteq> nid \<longrightarrow>
               map_of (sessions m) k =
                 (case map_of (sessions (session_manager cm)) k of
                    None \<Rightarrow> None
                  | Some x \<Rightarrow> Some (if map_of (user_to_session (session_manager cm)) uid = Some k
                                    then x\<lparr>is_active := False\<rparr> else x)))
         \<and> (\<forall>u. map_of (user_to_session m) u =
                   (if u = uid then Some nid else map_of (user_to_session (session_manager cm)) u))
         \<and> (m2 = m \<longrightarrow>
              map_of (sessions m2) nid = Some s \<and> conversation_history s = []
              \<and> (\<forall>k x. k \<noteq> nid \<and> map_of (sessions (session_manager cm)) k = Some x \<longrightarrow>
                    (\<exists>x'. map_of (sessions m2) k = Some x'
                        \<and> conversation_history x' = conversation_history x)))"
  proof
    assume miss: "\<not> (\<exists>sid s0. map_of (user_to_session (session_manager cm)) uid = Some sid \<and> sid \<noteq> []
              \<and> map_of (sessions (session_manager cm)) sid = Some s0
              \<and> \<not> is_expired s0 (session_timeout_minutes (session_manager cm)) t1)"
    note g = get_or_create_session_miss [OF miss res]
    have logs: "\<forall>k x. k \<noteq> nid \<and> map_of (sessions (session_manager cm)) k = Some x \<longrightarrow>
                    (\<exists>x'. map_of (sessions m) k = Some x'
                        \<and> conversation_history x' = conversation_history x)"
      using g(3) by auto
    from g(1) have "conversation_history s = []" by simp
    with g logs show "s = \<lparr>session_id = nid, user_id = uid, created_at = t2, last_activity = t3,
               conversation_history = [],
               user_context = (case ctx of None \<Rightarrow> [] | Some c \<Rightarrow> c), is_active = True\<rparr>
         \<and> map_of (sessions m) nid = Some s
         \<and> (\<forall>k. k \<noteq> nid \<longrightarrow>
               map_of (sessions m) k =
                 (case map_of (sessions (session_manager cm)) k of
                    None \<Rightarrow> None
                  | Some x \<Rightarrow> Some (if map_of (user_to_session (session_manager cm)) uid = Some k
                                    then x\<lparr>is_active := False\<rparr> else x)))
         \<and> (\<forall>u. map_of (user_to_session m) u =
                   (if u = uid then Some nid else map_of (user_to_session (session_manager cm)) u))
         \<and> (m2 = m \<longrightarrow>
              map_of (sessions m2) nid = Some s \<and> conversation_history s = []
              \<and> (\<forall>k x. k \<noteq> nid \<and> map_of (sessions (session_manager cm)) k = Some x \<longrightarrow>
                    (\<exists>x'. map_of (sessions m2) k = Some x'
                        \<and> conversation_history x' = conversation_history x)))"
      by blast
  qed
qed

theorem process_user_request_failure_witness:
  "process_user_request (ThreadSafeContextManager_init alice_created) ''alice'' ''hi''
      (query_processor (demo_collaborators\<lparr>process_query := (\<lambda>qc. Inl (ProcessorError ''down''))\<rparr>)
         ''alice'' 2) None ''s2'' 1 1 1 =
     Some (Raise (ProcessorError ''down''),
           \<lparr>session_manager =
              \<lparr>sessions =
                 [(''s1'', \<lparr>session_id = ''s1'', user_id = ''alice'', created_at = 0,
                            last_activity = 1, conversation_history = [],
                            user_context = [], is_active = True\<rparr>)],
               user_to_session = [(''alice'', ''s1'')],
               session_timeout_minutes = 60, cleanup_interval_minutes = 10\<rparr>,
            user_locks = [(''alice'', False)]\<rparr>)
   \<and> process_user_request (ThreadSafeContextManager_init registry0) ''bob'' ''hi''
      fail_processor None ''s7'' 1 2 3 =
     Some (Raise (ProcessorError ''boom''),
           \<lparr>session_manager =
              \<lparr>sessions =
                 [(''s7'', \<lparr>session_id = ''s7'', user_id = ''bob'', created_at = 2,
                            last_activity = 3, conversation_history = [],
                            user_context = [], is_active = True\<rparr>)],
               user_to_session = [(''bob'', ''s7'')],
               session_timeout_minutes = 60, cleanup_interval_minutes = 10\<rparr>,
            user_locks = [(''bob'', False)]\<rparr>)"
  using process_user_request_failure
          [of "ThreadSafeContextManager_init alice_created" "''alice''" None "''s2''" 1 1 1
              "alice_closed_session\<lparr>is_active := True, last_activity := 1\<rparr>"
              "alice_created\<lparr>sessions := [(''s1'', alice_closed_session\<lparr>is_active := True, last_activity := 1\<rparr>)]\<rparr>"
              "query_processor (demo_collaborators\<lparr>process_query := (\<lambda>qc. Inl (ProcessorError ''down''))\<rparr>) ''alice'' 2"
              "''hi''" "ProcessorError ''down''"
              "alice_created\<lparr>sessions := [(''s1'', alice_closed_session\<lparr>is_active := True, last_activity := 1\<rparr>)]\<rparr>"]
    process_user_request_failure
          [of "ThreadSafeContextManager_init registry0" "''bob''" None "''s7''" 1 2 3
              "\<lparr>session_id = ''s7'', user_id = ''bob'', created_at = 2, last_activity = 3,
                conversation_history = [], user_context = [], is_active = True\<rparr>"
              "registry0\<lparr>sessions := [(''s7'', \<lparr>session_id = ''s7'', user_id = ''bob'', created_at = 2,
                  last_activity = 3, conversation_history = [], user_context = [], is_active = True\<rparr>)],
                 user_to_session := [(''bob'', ''s7'')]\<rparr>"
              fail_processor "''hi''" "ProcessorError ''boom''"
              "registry0\<lparr>sessions := [(''s7'', \<lparr>session_id = ''s7'', user_id = ''bob'', created_at = 2,
                  last_activity = 3, conversation_history = [], user_context = [], is_active = True\<rparr>)],
                 user_to_session := [(''bob'', ''s7'')]\<rparr>"]
  by (simp add: demo_defs alice_closed_session_def coordinator_defs query_processor_def
      demo_collaborators_def get_recent_context_def fail_processor_def)

text \<open>
  C4 fails as stated, in two ways. A callback that appends a turn through the registry and
  then raises leaves that turn in the session's log, although the call ends in a failure.
  And when the session of the user has expired, a callback that raises and touches
  nothing leaves more than a refreshed \<open>last_activity\<close>: the old session is deactivated,
  a new one is stored and the index names it.
\<close>

theorem failing_callback_counterexample:
  "process_user_request (ThreadSafeContextManager_init alice_created) ''alice'' ''hi''
      append_then_fail None ''s2'' 1 1 1 =
     Some (Raise (ProcessorError ''boom''),
           \<lparr>session_manager =
              \<lparr>sessions =
                 [(''s1'', \<lparr>session_id = ''s1'', user_id = ''alice'', created_at = 0,
                            last_activity = 2,
                            conversation_history =
                              [\<lparr>timestamp = 2, user_message = ''hi'', bot_response = ''partial'',
                                sql_query = None, confidence = 0, metadata = []\<rparr>],
                            user_context = [], is_active = True\<rparr>)],
               user_to_session = [(''alice'', ''s1'')],
               session_timeout_minutes = 60, cleanup_interval_minutes = 10\<rparr>,
            user_locks = [(''alice'', False)]\<rparr>)
   \<and> process_user_request (ThreadSafeContextManager_init alice_created) ''alice'' ''hi''
      fail_processor None ''s2'' 3600000001 3600000001 3600000001 =
     Some (Raise (ProcessorError ''boom''),
           \<lparr>session_manager =
              \<lparr>sessions =
                 [(''s1'', \<lparr>session_id = ''s1'', user_id = ''alice'', created_at = 0,
                            last_activity = 0, conversation_history = [],
                            user_context = [], is_active = False\<rparr>),
                  (''s2'', \<lparr>session_id = ''s2'', user_id = ''alice'', created_at = 3600000001,
                            last_activity = 3600000001, conversation_history = [],
                            user_context = [], is_active = True\<rparr>)],
               user_to_session = [(''alice'', ''s2'')],
               session_timeout_minutes = 60, cleanup_interval_minutes = 10\<rparr>,
            user_locks = [(''alice'', False)]\<rparr>)"
  by (simp add: demo_defs coordinator_defs append_then_fail_def fail_processor_def)

end
